theory Spec2Isabelle
  imports Complex_Main "HOL-Library.Sublist"
begin

section \<open>Strings\<close>

text \<open>
  A Python \<open>str\<close> is modelled as a \<open>string\<close>, one \<open>char\<close> per code point below 256.
  Case mapping is modelled on the ASCII letters and leaves every other character as it
  is; white space is the ASCII white space of \<open>str.isspace\<close> (codes 9 to 13, 28 to 32).
\<close>

definition isspace :: "char \<Rightarrow> bool" where
  "isspace c = (let n = (of_char c :: nat) in (9 \<le> n \<and> n \<le> 13) \<or> (28 \<le> n \<and> n \<le> 32))"

definition char_lower :: "char \<Rightarrow> char" where
  "char_lower c = (let n = (of_char c :: nat) in if 65 \<le> n \<and> n \<le> 90 then char_of (n + 32) else c)"

definition char_upper :: "char \<Rightarrow> char" where
  "char_upper c = (let n = (of_char c :: nat) in if 97 \<le> n \<and> n \<le> 122 then char_of (n - 32) else c)"

definition lower :: "string \<Rightarrow> string" where
  "lower s = map char_lower s"

definition upper :: "string \<Rightarrow> string" where
  "upper s = map char_upper s"

definition strip :: "string \<Rightarrow> string" where
  "strip s = rev (dropWhile isspace (rev (dropWhile isspace s)))"

text \<open>\<open>sub in s\<close> on strings: \<open>sub\<close> occurs in \<open>s\<close> as a contiguous block.\<close>

fun str_contains :: "string \<Rightarrow> string \<Rightarrow> bool" where
  "str_contains sub [] = (sub = [])"
| "str_contains sub (c # cs) = (prefix sub (c # cs) \<or> str_contains sub cs)"

text \<open>\<open>str(i)\<close> for a non-negative integer.\<close>

fun str_of_nat :: "nat \<Rightarrow> string" where
  "str_of_nat n = (if n < 10 then [char_of (48 + n)] else str_of_nat (n div 10) @ [char_of (48 + n mod 10)])"

declare str_of_nat.simps [simp del]

section \<open>Decoded JSON, Python values and exceptions\<close>

text \<open>
  What \<open>json.loads\<close> returns. An object is the list of its items in insertion order,
  keys distinct (a \<open>dict\<close>). Python's \<open>float\<close> is modelled by \<open>real\<close>: arithmetic is
  exact, so rounding, overflow, infinities and NaN are outside the model.
\<close>

datatype json =
    JNull
  | JBool bool
  | JInt int
  | JFloat real
  | JStr string
  | JArr "json list"
  | JObj "(string \<times> json) list"

text \<open>
  The exceptions the program can raise. Those raised by the source itself carry the
  message written there; \<open>APIError\<close> stands for any exception of the chat completion
  client.
\<close>

datatype exn =
    JSONDecodeError
  | AttributeError
  | TypeError
  | IndexError
  | KeyError
  | ValueError string
  | ZeroDivisionError string
  | APIError string

text \<open>
  The value a step appends to \<open>results\<close>: an \<open>int\<close> (a decoy of \<open>random.randint\<close>
  that passed verification), a \<open>float\<close>, or a \<open>complex\<close> (a negative base raised to a
  fractional power; its value is never inspected, \<open>float\<close> rejects it).
\<close>

datatype pyval = PyInt int | PyFloat real | PyComplex

type_synonym message = "string \<times> string"  \<comment> \<open>role, content\<close>

section \<open>The library the program calls\<close>

text \<open>
  Library functions are parameters of the model: the JSON decoder (\<open>None\<close> when it raises
  \<open>JSONDecodeError\<close>), \<open>float\<close> on a \<open>str\<close> (\<open>Inl\<close> the message of the \<open>ValueError\<close> it
  raises), the random source (\<open>random.random\<close> and \<open>random.randint lo hi\<close>, each
  threading the generator state \<open>'g\<close>), and the chat completion service, which maps its
  own state \<open>'o\<close> and the transcript to the reply (role, content) or to an exception.
\<close>

record ('g, 'o) env =
  json_loads :: "string \<Rightarrow> json option"
  float_of_str :: "string \<Rightarrow> string + real"
  random_random :: "'g \<Rightarrow> real \<times> 'g"
  random_randint :: "int \<Rightarrow> int \<Rightarrow> 'g \<Rightarrow> int \<times> 'g"
  ChatCompletion_create :: "'o \<Rightarrow> message list \<Rightarrow> (exn + message) \<times> 'o"

text \<open>
  The mutable state: the random generator, the state of the chat service, and the two
  module-level dictionaries. An entry of \<open>virtual_tools\<close> is the dictionary
  \<open>{"plan_text": plan_text}\<close>, modelled by its only value. \<open>unreliable_calls\<close> is a ghost
  counter of the calls of \<open>unreliable_sum\<close> and \<open>unreliable_product\<close>.
\<close>

record ('g, 'o) world =
  rng :: 'g
  unreliable_calls :: nat
  oracle_state :: 'o
  virtual_tools :: "string \<rightharpoonup> string"
  success_count :: "string \<rightharpoonup> int"

section \<open>The tool functions\<close>

definition unreliable_sum ::
  "('g, 'o) env \<Rightarrow> real \<Rightarrow> real \<Rightarrow> ('g, 'o) world \<Rightarrow> pyval \<times> ('g, 'o) world" where
  "unreliable_sum env a b s =
     (let (r, g1) = random_random env (rng s);
          s1 = s\<lparr>unreliable_calls := Suc (unreliable_calls s)\<rparr>
      in if r < 0.4
         then (let (n, g2) = random_randint env (- 100) 100 g1 in (PyInt n, s1\<lparr>rng := g2\<rparr>))
         else (PyFloat (a + b), s1\<lparr>rng := g1\<rparr>))"

definition unreliable_product ::
  "('g, 'o) env \<Rightarrow> real \<Rightarrow> real \<Rightarrow> ('g, 'o) world \<Rightarrow> pyval \<times> ('g, 'o) world" where
  "unreliable_product env a b s =
     (let (r, g1) = random_random env (rng s);
          s1 = s\<lparr>unreliable_calls := Suc (unreliable_calls s)\<rparr>
      in if r < 0.4
         then (let (n, g2) = random_randint env (- 100) 100 g1 in (PyInt n, s1\<lparr>rng := g2\<rparr>))
         else (PyFloat (a * b), s1\<lparr>rng := g1\<rparr>))"

definition delta :: "real \<Rightarrow> real \<Rightarrow> real" where
  "delta a b = b - a"

text \<open>
  \<open>quotient\<close>, \<open>modulo\<close> and \<open>power\<close> of the source are \<open>quotient_tool\<close>, \<open>modulo_tool\<close>
  and \<open>power_tool\<close> here (the plain names are constants of HOL). Python's \<open>%\<close> on
  floats takes the sign of the divisor.
\<close>

definition quotient_tool :: "real \<Rightarrow> real \<Rightarrow> exn + real" where
  "quotient_tool a b = (if b = 0 then Inl (ZeroDivisionError ''Division by zero.'') else Inr (a / b))"

definition modulo_tool :: "real \<Rightarrow> real \<Rightarrow> exn + real" where
  "modulo_tool a b = (if b = 0 then Inl (ZeroDivisionError ''Modulo by zero.'')
                 else Inr (a - b * of_int \<lfloor>a / b\<rfloor>))"

text \<open>
  \<open>a ** b\<close> on floats: anything to the power 0 is 1; zero to a negative power raises
  \<open>ZeroDivisionError\<close> (with the interpreter's message); a negative base with a
  fractional exponent gives a \<open>complex\<close>.
\<close>

definition power_tool :: "real \<Rightarrow> real \<Rightarrow> exn + pyval" where
  "power_tool a b =
     (if b = 0 then Inr (PyFloat 1)
      else if a = 0 then
        (if b < 0 then Inl (ZeroDivisionError ''0.0 cannot be raised to a negative power'')
         else Inr (PyFloat 0))
      else if b = of_int \<lfloor>b\<rfloor> then Inr (PyFloat (a powi \<lfloor>b\<rfloor>))
      else if a < 0 then Inr PyComplex
      else Inr (PyFloat (a powr b)))"

definition absolute :: "real \<Rightarrow> real" where
  "absolute a = \<bar>a\<bar>"

text \<open>\<open>candidate == x\<close> for a float \<open>x\<close>: an \<open>int\<close> and a \<open>float\<close> compare by value.\<close>

fun py_eq_float :: "pyval \<Rightarrow> real \<Rightarrow> bool" where
  "py_eq_float (PyInt n) x = (of_int n = x)"
| "py_eq_float (PyFloat y) x = (y = x)"
| "py_eq_float PyComplex x = False"

definition verify_unreliable :: "string \<Rightarrow> real \<Rightarrow> real \<Rightarrow> pyval \<Rightarrow> bool" where
  "verify_unreliable tool_name a b candidate =
     (let t = upper tool_name
      in if t = ''SUM'' then py_eq_float candidate (a + b)
         else if t = ''PRODUCT'' then py_eq_float candidate (a * b)
         else True)"

section \<open>Built-in operations on decoded JSON\<close>

text \<open>\<open>d.get(k, dflt)\<close> on a dictionary.\<close>

definition dict_get :: "(string \<times> json) list \<Rightarrow> string \<Rightarrow> json \<Rightarrow> json" where
  "dict_get kv k dflt = (case map_of kv k of None \<Rightarrow> dflt | Some v \<Rightarrow> v)"

text \<open>\<open>len(x)\<close>: defined on lists, strings and dictionaries, a \<open>TypeError\<close> otherwise.\<close>

fun py_len :: "json \<Rightarrow> exn + nat" where
  "py_len (JArr xs) = Inr (length xs)"
| "py_len (JStr s) = Inr (length s)"
| "py_len (JObj kv) = Inr (length kv)"
| "py_len _ = Inl TypeError"

text \<open>
  \<open>x[i]\<close> for a literal index \<open>i \<ge> 0\<close>: a list or string element, \<open>IndexError\<close> out of
  range, \<open>KeyError\<close> on a dictionary (its keys are strings), \<open>TypeError\<close> otherwise.
\<close>

fun py_getitem :: "json \<Rightarrow> nat \<Rightarrow> exn + json" where
  "py_getitem (JArr xs) i = (if i < length xs then Inr (xs ! i) else Inl IndexError)"
| "py_getitem (JStr s) i = (if i < length s then Inr (JStr [s ! i]) else Inl IndexError)"
| "py_getitem (JObj kv) i = Inl KeyError"
| "py_getitem _ i = Inl TypeError"

text \<open>What \<open>for ... in enumerate(x)\<close> visits, for an \<open>x\<close> that has a length.\<close>

fun py_iter :: "json \<Rightarrow> json list" where
  "py_iter (JArr xs) = xs"
| "py_iter (JStr s) = map (\<lambda>c. JStr [c]) s"
| "py_iter (JObj kv) = map (\<lambda>p. JStr (fst p)) kv"
| "py_iter _ = []"

text \<open>\<open>float(x)\<close> on a decoded JSON value; \<open>bool\<close> is a subclass of \<open>int\<close>.\<close>

fun py_float :: "('g, 'o) env \<Rightarrow> json \<Rightarrow> exn + real" where
  "py_float env (JInt i) = Inr (of_int i)"
| "py_float env (JFloat r) = Inr r"
| "py_float env (JBool b) = Inr (if b then 1 else 0)"
| "py_float env (JStr s) = (case float_of_str env s of Inl msg \<Rightarrow> Inl (ValueError msg) | Inr r \<Rightarrow> Inr r)"
| "py_float env _ = Inl TypeError"

text \<open>\<open>x >= n\<close> for the length \<open>n\<close>: numbers compare, anything else is a \<open>TypeError\<close>.\<close>

fun py_ge_len :: "json \<Rightarrow> nat \<Rightarrow> exn + bool" where
  "py_ge_len (JInt i) n = Inr (i \<ge> int n)"
| "py_ge_len (JFloat r) n = Inr (r \<ge> real n)"
| "py_ge_len (JBool b) n = Inr ((if b then 1 else 0) \<ge> n)"
| "py_ge_len _ n = Inl TypeError"

text \<open>\<open>xs[i]\<close> on a list for an integer \<open>i\<close>: a negative index counts from the end.\<close>

definition list_getitem :: "'a list \<Rightarrow> int \<Rightarrow> exn + 'a" where
  "list_getitem xs i =
     (let n = int (length xs); j = (if i < 0 then i + n else i)
      in if 0 \<le> j \<and> j < n then Inr (xs ! nat j) else Inl IndexError)"

text \<open>\<open>results[final_idx]\<close>: only an \<open>int\<close> (or \<open>bool\<close>) is an index.\<close>

fun results_getitem :: "pyval list \<Rightarrow> json \<Rightarrow> exn + pyval" where
  "results_getitem results (JInt i) = list_getitem results i"
| "results_getitem results (JBool b) = list_getitem results (if b then 1 else 0)"
| "results_getitem results _ = Inl TypeError"

text \<open>\<open>float(v)\<close> on a step result.\<close>

fun float_of_pyval :: "pyval \<Rightarrow> exn + real" where
  "float_of_pyval (PyInt n) = Inr (of_int n)"
| "float_of_pyval (PyFloat r) = Inr r"
| "float_of_pyval PyComplex = Inl TypeError"

section \<open>Executing a plan\<close>

text \<open>\<open>a, b = float(args[0]), float(args[1])\<close>, evaluated left to right.\<close>

definition float_args2 :: "('g, 'o) env \<Rightarrow> json \<Rightarrow> exn + real \<times> real" where
  "float_args2 env args =
     (case py_getitem args 0 of Inl e \<Rightarrow> Inl e | Inr x0 \<Rightarrow>
      (case py_float env x0 of Inl e \<Rightarrow> Inl e | Inr a \<Rightarrow>
       (case py_getitem args 1 of Inl e \<Rightarrow> Inl e | Inr x1 \<Rightarrow>
        (case py_float env x1 of Inl e \<Rightarrow> Inl e | Inr b \<Rightarrow> Inr (a, b)))))"

text \<open>\<open>a = float(args[0])\<close>.\<close>

definition float_args1 :: "('g, 'o) env \<Rightarrow> json \<Rightarrow> exn + real" where
  "float_args1 env args =
     (case py_getitem args 0 of Inl e \<Rightarrow> Inl e | Inr x0 \<Rightarrow> py_float env x0)"

definition unknown_tool_msg :: "string \<Rightarrow> nat \<Rightarrow> string" where
  "unknown_tool_msg tool i =
     ''Unknown tool '' @ [CHR 0x27] @ tool @ [CHR 0x27] @ '' at step '' @ str_of_nat i"

text \<open>
  The body of the loop of \<open>execute_plan\<close> for the step \<open>stp\<close> at index \<open>i\<close>: the value
  appended to \<open>results\<close>, or the exception raised. \<open>stp.get\<close> needs a dictionary and
  \<open>.upper()\<close> a string; both raise \<open>AttributeError\<close> otherwise.
\<close>

definition exec_step ::
  "('g, 'o) env \<Rightarrow> nat \<Rightarrow> json \<Rightarrow> ('g, 'o) world \<Rightarrow> (exn + pyval) \<times> ('g, 'o) world" where
  "exec_step env i stp s =
     (case stp of
        JObj kv \<Rightarrow>
          (case dict_get kv ''tool'' (JStr []) of
             JStr t \<Rightarrow>
               (let tool = upper t; args = dict_get kv ''args'' (JArr []) in
                if tool = ''SUM'' then
                  (case py_len args of Inl e \<Rightarrow> (Inl e, s) | Inr n \<Rightarrow>
                   if n < 2 then (Inl (ValueError ''SUM needs 2 args''), s)
                   else (case float_args2 env args of Inl e \<Rightarrow> (Inl e, s) | Inr (a, b) \<Rightarrow>
                     (let (out, s') = unreliable_sum env a b s
                      in (Inr (if \<not> verify_unreliable ''SUM'' a b out then PyFloat (a + b) else out), s'))))
                else if tool = ''PRODUCT'' then
                  (case py_len args of Inl e \<Rightarrow> (Inl e, s) | Inr n \<Rightarrow>
                   if n < 2 then (Inl (ValueError ''PRODUCT needs 2 args''), s)
                   else (case float_args2 env args of Inl e \<Rightarrow> (Inl e, s) | Inr (a, b) \<Rightarrow>
                     (let (out, s') = unreliable_product env a b s
                      in (Inr (if \<not> verify_unreliable ''PRODUCT'' a b out then PyFloat (a * b) else out), s'))))
                else if tool = ''DELTA'' then
                  (case float_args2 env args of Inl e \<Rightarrow> (Inl e, s) | Inr (a, b) \<Rightarrow>
                     (Inr (PyFloat (delta a b)), s))
                else if tool = ''QUOTIENT'' then
                  (case float_args2 env args of Inl e \<Rightarrow> (Inl e, s) | Inr (a, b) \<Rightarrow>
                     (case quotient_tool a b of Inl e \<Rightarrow> (Inl e, s) | Inr r \<Rightarrow> (Inr (PyFloat r), s)))
                else if tool = ''MODULO'' then
                  (case float_args2 env args of Inl e \<Rightarrow> (Inl e, s) | Inr (a, b) \<Rightarrow>
                     (case modulo_tool a b of Inl e \<Rightarrow> (Inl e, s) | Inr r \<Rightarrow> (Inr (PyFloat r), s)))
                else if tool = ''POWER'' then
                  (case float_args2 env args of Inl e \<Rightarrow> (Inl e, s) | Inr (a, b) \<Rightarrow>
                     (case power_tool a b of Inl e \<Rightarrow> (Inl e, s) | Inr v \<Rightarrow> (Inr v, s)))
                else if tool = ''ABS'' then
                  (case float_args1 env args of Inl e \<Rightarrow> (Inl e, s) | Inr a \<Rightarrow>
                     (Inr (PyFloat (absolute a)), s))
                else (Inl (ValueError (unknown_tool_msg tool i)), s))
           | _ \<Rightarrow> (Inl AttributeError, s))
      | _ \<Rightarrow> (Inl AttributeError, s))"

text \<open>
  The loop \<open>for i, stp in enumerate(steps)\<close>, from index \<open>i\<close> with the \<open>results\<close> so
  far: it stops at the first exception.
\<close>

fun run_steps ::
  "('g, 'o) env \<Rightarrow> nat \<Rightarrow> json list \<Rightarrow> pyval list \<Rightarrow> ('g, 'o) world
     \<Rightarrow> (exn + pyval list) \<times> ('g, 'o) world" where
  "run_steps env i [] results s = (Inr results, s)"
| "run_steps env i (stp # rest) results s =
     (case exec_step env i stp s of
        (Inl e, s') \<Rightarrow> (Inl e, s')
      | (Inr out, s') \<Rightarrow> run_steps env (Suc i) rest (results @ [out]) s')"

text \<open>
  \<open>execute_plan\<close>: the answer or the exception raised, and the state left behind. The
  default of \<open>plan.get("final_step_index", len(steps)-1)\<close> is evaluated before the
  lookup, so \<open>len(steps)\<close> can raise even when the field is present.
\<close>

definition execute_plan ::
  "('g, 'o) env \<Rightarrow> string \<Rightarrow> ('g, 'o) world \<Rightarrow> (exn + real) \<times> ('g, 'o) world" where
  "execute_plan env plan_text s =
     (case json_loads env plan_text of
        None \<Rightarrow> (Inl JSONDecodeError, s)
      | Some (JObj kv) \<Rightarrow>
          (let steps = dict_get kv ''steps'' (JArr []) in
           case py_len steps of Inl e \<Rightarrow> (Inl e, s) | Inr n \<Rightarrow>
           (let final_idx = dict_get kv ''final_step_index'' (JInt (int n - 1)) in
            case py_ge_len final_idx n of
              Inl e \<Rightarrow> (Inl e, s)
            | Inr True \<Rightarrow> (Inl (ValueError ''invalid final_step_index''), s)
            | Inr False \<Rightarrow>
                (case run_steps env 0 (py_iter steps) [] s of
                   (Inl e, s') \<Rightarrow> (Inl e, s')
                 | (Inr results, s') \<Rightarrow>
                     (case results_getitem results final_idx of
                        Inl e \<Rightarrow> (Inl e, s')
                      | Inr v \<Rightarrow> (float_of_pyval v, s')))))
      | Some _ \<Rightarrow> (Inl AttributeError, s))"

section \<open>The conversation with the planner\<close>

definition DOC_SUM :: string where
  "DOC_SUM = ''SUM: unreliable add. Takes [a,b]. Fails ~40%. Else returns a+b.''"

definition DOC_PRODUCT :: string where
  "DOC_PRODUCT = ''PRODUCT: unreliable multiply. Takes [a,b]. Fails ~40%. Else a*b.''"

definition DOC_DELTA :: string where
  "DOC_DELTA = ''DELTA: reliable difference b-a. Takes [a,b].''"

definition DOC_QUOTIENT :: string where
  "DOC_QUOTIENT = ''QUOTIENT: reliable a/b. (error if b=0).''"

definition DOC_MODULO :: string where
  "DOC_MODULO = ''MODULO: reliable a%b. (error if b=0).''"

definition DOC_POWER :: string where
  "DOC_POWER = ''POWER: reliable a**b.''"

definition DOC_ABS :: string where
  "DOC_ABS = ''ABS: reliable absolute(a). Takes [a], ignoring b.''"

definition SYSTEM_PROMPT :: string where
  \<open>SYSTEM_PROMPT = concat (map (\<lambda>l. l @ [CHR 0x0A])
     [''You are a Planner LLM. You do NOT know which tools exist.'',
      ''You may ask: "Which tools exist?" '',
      ''OR "Tell me about the tool named 'XYZ'" to discover them one by one.'',
      ''Once you have enough info, produce a final JSON plan:'',
      ''{'',
      ''  "steps": ['',
      ''    {"tool":"...", "args":[...]}, '',
      ''    ...'',
      ''  ],'',
      ''  "final_step_index": <index>'',
      ''}'',
      ''No extra text, just the final JSON when done.''])\<close>

fun first_match :: "string list \<Rightarrow> string \<Rightarrow> string" where
  "first_match [] text = []"
| "first_match (t # ts) text = (if str_contains t text then t else first_match ts text)"

definition parse_tool_request :: "string \<Rightarrow> string" where
  "parse_tool_request text =
     first_match [''sum'', ''product'', ''delta'', ''quotient'', ''modulo'', ''power'', ''abs''] text"

definition get_tool_doc :: "string \<Rightarrow> string" where
  "get_tool_doc tool_name =
     (if tool_name = ''sum'' then DOC_SUM
      else if tool_name = ''product'' then DOC_PRODUCT
      else if tool_name = ''delta'' then DOC_DELTA
      else if tool_name = ''quotient'' then DOC_QUOTIENT
      else if tool_name = ''modulo'' then DOC_MODULO
      else if tool_name = ''power'' then DOC_POWER
      else if tool_name = ''abs'' then DOC_ABS
      else ''No such tool.'')"

text \<open>
  The \<open>while True\<close> loop of \<open>conversation_with_planner\<close>, one call of the chat service
  per iteration. The source sets no bound on the turns, so the model takes fuel:
  \<open>None\<close> is a conversation that has not ended after \<open>fuel\<close> replies. An exception of
  the chat service leaves the loop (nothing in it is caught).
\<close>

fun planner_loop ::
  "('g, 'o) env \<Rightarrow> nat \<Rightarrow> message list \<Rightarrow> 'o \<Rightarrow> ((exn + string) \<times> 'o) option" where
  \<open>planner_loop env 0 messages ost = None\<close>
| \<open>planner_loop env (Suc fuel) messages ost =
     (case ChatCompletion_create env ost messages of
        (Inl e, ost') \<Rightarrow> Some (Inl e, ost')
      | (Inr (role, raw), ost') \<Rightarrow>
          (let content = strip raw in
           if str_contains ''"steps":'' content \<and> str_contains ''"final_step_index":'' content
           then Some (Inr content, ost')
           else
             (let messages1 = messages @ [(role, content)];
                  lower_content = lower content
              in if str_contains ''which tools exist'' lower_content then
                   planner_loop env fuel
                     (messages1 @ [(''assistant'',
                        ''We have 7 tools: SUM, PRODUCT, DELTA, QUOTIENT, MODULO, POWER, ABS. Ask for doc by name if needed.'')])
                     ost'
                 else if str_contains ''tell me about the tool named'' lower_content then
                   (let t = parse_tool_request lower_content;
                        snippet = get_tool_doc t
                    in planner_loop env fuel (messages1 @ [(''assistant'', snippet)]) ost')
                 else
                   planner_loop env fuel
                     (messages1 @ [(''assistant'',
                        ''If you need more tool docs, ask specifically. Otherwise, produce the final JSON plan.'')])
                     ost')))\<close>

definition conversation_with_planner ::
  "('g, 'o) env \<Rightarrow> nat \<Rightarrow> string \<Rightarrow> 'o \<Rightarrow> ((exn + string) \<times> 'o) option" where
  "conversation_with_planner env fuel user_question ost =
     planner_loop env fuel [(''system'', SYSTEM_PROMPT), (''user'', user_question)] ost"

section \<open>Virtual tools and the entry point\<close>

definition get_question_signature :: "string \<Rightarrow> string" where
  "get_question_signature question = lower (strip question)"

definition store_virtual_tool ::
  "string \<Rightarrow> string \<Rightarrow> ('g, 'o) world \<Rightarrow> ('g, 'o) world" where
  "store_virtual_tool signature plan_text s =
     s\<lparr>virtual_tools := (virtual_tools s)(signature \<mapsto> plan_text)\<rparr>"

text \<open>
  The dictionary \<open>ask_system\<close> returns. A success has no \<open>"error"\<close> key and a failure
  no \<open>"answer"\<close> key; \<open>error\<close> holds the exception whose \<open>str(e)\<close> is the \<open>"error"\<close> text.
\<close>

record outcome =
  question :: string
  plan :: string
  answer :: "real option"
  error :: "exn option"
  status :: string
  via :: string

text \<open>
  \<open>ask_system\<close>: \<open>Inr\<close> the dictionary returned, \<open>Inl\<close> an exception that leaves
  \<open>ask_system\<close> uncaught, \<open>None\<close> when the conversation has not ended within the fuel.
  The call of \<open>conversation_with_planner\<close> stands before the \<open>try\<close>.
\<close>

definition ask_system ::
  "('g, 'o) env \<Rightarrow> nat \<Rightarrow> string \<Rightarrow> ('g, 'o) world
     \<Rightarrow> ((exn + outcome) \<times> ('g, 'o) world) option" where
  "ask_system env fuel wordy_question s =
     (let sg = get_question_signature wordy_question in
      case virtual_tools s sg of
        Some plan_text \<Rightarrow>
          (case execute_plan env plan_text s of
             (Inr val, s') \<Rightarrow>
               Some (Inr \<lparr>question = wordy_question, plan = plan_text, answer = Some val,
                          error = None, status = ''success'', via = ''virtual_tool''\<rparr>, s')
           | (Inl e, s') \<Rightarrow>
               Some (Inr \<lparr>question = wordy_question, plan = plan_text, answer = None,
                          error = Some e, status = ''fail'', via = ''virtual_tool''\<rparr>, s'))
      | None \<Rightarrow>
          (case conversation_with_planner env fuel wordy_question (oracle_state s) of
             None \<Rightarrow> None
           | Some (Inl e, ost) \<Rightarrow> Some (Inl e, s\<lparr>oracle_state := ost\<rparr>)
           | Some (Inr plan_text, ost) \<Rightarrow>
               (case execute_plan env plan_text (s\<lparr>oracle_state := ost\<rparr>) of
                  (Inr val, s1) \<Rightarrow>
                    (let old_count = (case success_count s1 sg of None \<Rightarrow> 0 | Some c \<Rightarrow> c);
                         new_count = old_count + 1;
                         s2 = s1\<lparr>success_count := (success_count s1)(sg \<mapsto> new_count)\<rparr>;
                         s3 = (if new_count = 2 then store_virtual_tool sg plan_text s2 else s2)
                     in Some (Inr \<lparr>question = wordy_question, plan = plan_text, answer = Some val,
                                   error = None, status = ''success'', via = ''fresh_llm''\<rparr>, s3))
                | (Inl e, s1) \<Rightarrow>
                    Some (Inr \<lparr>question = wordy_question, plan = plan_text, answer = None,
                               error = Some e, status = ''fail'', via = ''fresh_llm''\<rparr>, s1))))"

section \<open>An example environment\<close>

text \<open>
  Concrete plan texts and a concrete library, for running the definitions. The decoder
  is a table of the texts below with their decoded values. The random source always
  takes the failure branch of the unreliable tools and returns the decoy 42. The chat
  service counts its calls: it answers the first with a plan, the second with the same
  plan spaced differently, and raises from the third call on. No example converts a
  string to a float.
\<close>

definition plan_example1 :: string where
  \<open>plan_example1 =
     ''{"steps":[{"tool":"DELTA","args":[10,3]},{"tool":"PRODUCT","args":[7,4]}],"final_step_index":1}''\<close>

definition plan_example1_spaced :: string where
  \<open>plan_example1_spaced =
     ''{"steps": [{"tool":"DELTA","args":[10,3]},{"tool":"PRODUCT","args":[7,4]}], "final_step_index": 1}''\<close>

definition plan_index_5 :: string where
  \<open>plan_index_5 =
     ''{"steps":[{"tool":"DELTA","args":[10,3]},{"tool":"PRODUCT","args":[7,4]}],"final_step_index":5}''\<close>

definition plan_index_minus_1 :: string where
  \<open>plan_index_minus_1 =
     ''{"steps":[{"tool":"DELTA","args":[10,3]},{"tool":"PRODUCT","args":[7,4]}],"final_step_index":-1}''\<close>

definition plan_index_minus_5 :: string where
  \<open>plan_index_minus_5 =
     ''{"steps":[{"tool":"DELTA","args":[10,3]},{"tool":"PRODUCT","args":[7,4]}],"final_step_index":-5}''\<close>

definition plan_no_final :: string where
  \<open>plan_no_final =
     ''{"steps":[{"tool":"DELTA","args":[10,3]},{"tool":"PRODUCT","args":[7,4]}]}''\<close>

definition plan_sum_one_arg :: string where
  \<open>plan_sum_one_arg = ''{"steps":[{"tool":"SUM","args":[1]}],"final_step_index":0}''\<close>

definition plan_abs_two_args :: string where
  \<open>plan_abs_two_args = ''{"steps":[{"tool":"ABS","args":[-6,4]}],"final_step_index":0}''\<close>

definition plan_quotient_zero :: string where
  \<open>plan_quotient_zero = ''{"steps":[{"tool":"QUOTIENT","args":[5,0]}],"final_step_index":0}''\<close>

definition plan_quotient_zero_index_5 :: string where
  \<open>plan_quotient_zero_index_5 = ''{"steps":[{"tool":"QUOTIENT","args":[5,0]}],"final_step_index":5}''\<close>

definition plan_power_zero :: string where
  \<open>plan_power_zero = ''{"steps":[{"tool":"POWER","args":[0,-1]}],"final_step_index":0}''\<close>

definition json_step :: "string \<Rightarrow> json list \<Rightarrow> json" where
  "json_step tool args = JObj [(''tool'', JStr tool), (''args'', JArr args)]"

definition json_plan :: "json list \<Rightarrow> int \<Rightarrow> json" where
  "json_plan steps idx = JObj [(''steps'', JArr steps), (''final_step_index'', JInt idx)]"

definition steps_example1 :: "json list" where
  "steps_example1 = [json_step ''DELTA'' [JInt 10, JInt 3], json_step ''PRODUCT'' [JInt 7, JInt 4]]"

definition example_json_loads :: "string \<Rightarrow> json option" where
  "example_json_loads = map_of
     [(plan_example1, json_plan steps_example1 1),
      (plan_example1_spaced, json_plan steps_example1 1),
      (plan_index_5, json_plan steps_example1 5),
      (plan_index_minus_1, json_plan steps_example1 (- 1)),
      (plan_index_minus_5, json_plan steps_example1 (- 5)),
      (plan_no_final, JObj [(''steps'', JArr steps_example1)]),
      (plan_sum_one_arg, json_plan [json_step ''SUM'' [JInt 1]] 0),
      (plan_abs_two_args, json_plan [json_step ''ABS'' [JInt (- 6), JInt 4]] 0),
      (plan_quotient_zero, json_plan [json_step ''QUOTIENT'' [JInt 5, JInt 0]] 0),
      (plan_quotient_zero_index_5, json_plan [json_step ''QUOTIENT'' [JInt 5, JInt 0]] 5),
      (plan_power_zero, json_plan [json_step ''POWER'' [JInt 0, JInt (- 1)]] 0)]"

definition example_chat :: "nat \<Rightarrow> message list \<Rightarrow> (exn + message) \<times> nat" where
  "example_chat n messages =
     (if n = 0 then (Inr (''assistant'', plan_example1), Suc n)
      else if n = 1 then (Inr (''assistant'', plan_example1_spaced), Suc n)
      else (Inl (APIError ''service unavailable''), Suc n))"

definition example_env :: "(nat, nat) env" where
  "example_env =
     \<lparr>json_loads = example_json_loads,
      float_of_str = (\<lambda>s. Inl ''could not convert string to float''),
      random_random = (\<lambda>g. (0, Suc g)),
      random_randint = (\<lambda>lo hi g. (max lo (min hi 42), Suc g)),
      ChatCompletion_create = example_chat\<rparr>"

text \<open>The state at start-up: both dictionaries empty.\<close>

definition initial_world :: "(nat, nat) world" where
  "initial_world =
     \<lparr>rng = 0, unreliable_calls = 0, oracle_state = 0,
      virtual_tools = Map.empty, success_count = Map.empty\<rparr>"

section \<open>The exact semantics of a plan\<close>

text \<open>
  The reference the executor is compared with, written from the table of primitives:
  \<open>SUM\<close> is \<open>a + b\<close> and \<open>PRODUCT\<close> is \<open>a * b\<close>, with no random source and no state;
  everything else, the checks and the exceptions included, is as in \<open>exec_step\<close>.
\<close>

definition exact_step :: "('g, 'o) env \<Rightarrow> nat \<Rightarrow> json \<Rightarrow> exn + pyval" where
  "exact_step env i stp =
     (case stp of
        JObj kv \<Rightarrow>
          (case dict_get kv ''tool'' (JStr []) of
             JStr t \<Rightarrow>
               (let tool = upper t; args = dict_get kv ''args'' (JArr []) in
                if tool = ''SUM'' then
                  (case py_len args of Inl e \<Rightarrow> Inl e | Inr n \<Rightarrow>
                   if n < 2 then Inl (ValueError ''SUM needs 2 args'')
                   else (case float_args2 env args of Inl e \<Rightarrow> Inl e | Inr (a, b) \<Rightarrow>
                     Inr (PyFloat (a + b))))
                else if tool = ''PRODUCT'' then
                  (case py_len args of Inl e \<Rightarrow> Inl e | Inr n \<Rightarrow>
                   if n < 2 then Inl (ValueError ''PRODUCT needs 2 args'')
                   else (case float_args2 env args of Inl e \<Rightarrow> Inl e | Inr (a, b) \<Rightarrow>
                     Inr (PyFloat (a * b))))
                else if tool = ''DELTA'' then
                  (case float_args2 env args of Inl e \<Rightarrow> Inl e | Inr (a, b) \<Rightarrow>
                     Inr (PyFloat (b - a)))
                else if tool = ''QUOTIENT'' then
                  (case float_args2 env args of Inl e \<Rightarrow> Inl e | Inr (a, b) \<Rightarrow>
                     (case quotient_tool a b of Inl e \<Rightarrow> Inl e | Inr r \<Rightarrow> Inr (PyFloat r)))
                else if tool = ''MODULO'' then
                  (case float_args2 env args of Inl e \<Rightarrow> Inl e | Inr (a, b) \<Rightarrow>
                     (case modulo_tool a b of Inl e \<Rightarrow> Inl e | Inr r \<Rightarrow> Inr (PyFloat r)))
                else if tool = ''POWER'' then
                  (case float_args2 env args of Inl e \<Rightarrow> Inl e | Inr (a, b) \<Rightarrow>
                     power_tool a b)
                else if tool = ''ABS'' then
                  (case float_args1 env args of Inl e \<Rightarrow> Inl e | Inr a \<Rightarrow>
                     Inr (PyFloat \<bar>a\<bar>))
                else Inl (ValueError (unknown_tool_msg tool i)))
           | _ \<Rightarrow> Inl AttributeError)
      | _ \<Rightarrow> Inl AttributeError)"

fun exact_run_steps :: "('g, 'o) env \<Rightarrow> nat \<Rightarrow> json list \<Rightarrow> pyval list \<Rightarrow> exn + pyval list" where
  "exact_run_steps env i [] results = Inr results"
| "exact_run_steps env i (stp # rest) results =
     (case exact_step env i stp of
        Inl e \<Rightarrow> Inl e
      | Inr out \<Rightarrow> exact_run_steps env (Suc i) rest (results @ [out]))"

definition exact_execute_plan :: "('g, 'o) env \<Rightarrow> string \<Rightarrow> exn + real" where
  "exact_execute_plan env plan_text =
     (case json_loads env plan_text of
        None \<Rightarrow> Inl JSONDecodeError
      | Some (JObj kv) \<Rightarrow>
          (let steps = dict_get kv ''steps'' (JArr []) in
           case py_len steps of Inl e \<Rightarrow> Inl e | Inr n \<Rightarrow>
           (let final_idx = dict_get kv ''final_step_index'' (JInt (int n - 1)) in
            case py_ge_len final_idx n of
              Inl e \<Rightarrow> Inl e
            | Inr True \<Rightarrow> Inl (ValueError ''invalid final_step_index'')
            | Inr False \<Rightarrow>
                (case exact_run_steps env 0 (py_iter steps) [] of
                   Inl e \<Rightarrow> Inl e
                 | Inr results \<Rightarrow>
                     (case results_getitem results final_idx of
                        Inl e \<Rightarrow> Inl e
                      | Inr v \<Rightarrow> float_of_pyval v))))
      | Some _ \<Rightarrow> Inl AttributeError)"

text \<open>A step that names \<open>SUM\<close> or \<open>PRODUCT\<close>, and how many steps of a plan do.\<close>

definition is_unreliable_step :: "json \<Rightarrow> bool" where
  "is_unreliable_step stp =
     (case stp of
        JObj kv \<Rightarrow>
          (case dict_get kv ''tool'' (JStr []) of
             JStr t \<Rightarrow> upper t = ''SUM'' \<or> upper t = ''PRODUCT''
           | _ \<Rightarrow> False)
      | _ \<Rightarrow> False)"

definition unreliable_step_count :: "('g, 'o) env \<Rightarrow> string \<Rightarrow> nat" where
  "unreliable_step_count env plan_text =
     (case json_loads env plan_text of
        Some (JObj kv) \<Rightarrow> length (filter is_unreliable_step (py_iter (dict_get kv ''steps'' (JArr []))))
      | _ \<Rightarrow> 0)"

text \<open>Two step results that \<open>float\<close> maps to the same number (or both rejects).\<close>

definition same_number :: "pyval \<Rightarrow> pyval \<Rightarrow> bool" where
  "same_number v w = (float_of_pyval v = float_of_pyval w)"

section \<open>Reading a step, and reaching it\<close>

text \<open>
  The tool a step names, as the executor reads it (\<open>stp.get("tool","").upper()\<close>,
  \<open>None\<close> where that raises), and its arguments (\<open>stp.get("args", [])\<close>).
\<close>

definition step_tool :: "json \<Rightarrow> string option" where
  "step_tool stp =
     (case stp of
        JObj kv \<Rightarrow> (case dict_get kv ''tool'' (JStr []) of JStr t \<Rightarrow> Some (upper t) | _ \<Rightarrow> None)
      | _ \<Rightarrow> None)"

definition step_args :: "json \<Rightarrow> json" where
  "step_args stp = (case stp of JObj kv \<Rightarrow> dict_get kv ''args'' (JArr []) | _ \<Rightarrow> JArr [])"

text \<open>
  \<open>reaches_step env plan_text s i = Some (stp, s1)\<close>: started in \<open>s\<close>, the execution of the
  plan gets to its step \<open>i\<close>, which is \<open>stp\<close>, in the state \<open>s1\<close>. That is, the text
  decodes to an object whose \<open>steps\<close> is a list with more than \<open>i\<close> elements, the check
  of the final index passes, and the steps before \<open>i\<close> run without an exception.
\<close>

definition reaches_step ::
  "('g, 'o) env \<Rightarrow> string \<Rightarrow> ('g, 'o) world \<Rightarrow> nat \<Rightarrow> (json \<times> ('g, 'o) world) option" where
  "reaches_step env plan_text s i =
     (case json_loads env plan_text of
        Some (JObj kv) \<Rightarrow>
          (case dict_get kv ''steps'' (JArr []) of
             JArr xs \<Rightarrow>
               if py_ge_len (dict_get kv ''final_step_index'' (JInt (int (length xs) - 1))) (length xs)
                    = Inr False \<and> i < length xs
               then (case run_steps env 0 (take i xs) [] s of
                       (Inr res, s1) \<Rightarrow> Some (xs ! i, s1)
                     | (Inl e, s1) \<Rightarrow> None)
               else None
           | _ \<Rightarrow> None)
      | _ \<Rightarrow> None)"

text \<open>A \<open>QUOTIENT\<close> or \<open>MODULO\<close> step whose second argument converts to the float 0.\<close>

definition divides_by_zero :: "('g, 'o) env \<Rightarrow> json \<Rightarrow> bool" where
  "divides_by_zero env stp =
     ((step_tool stp = Some ''QUOTIENT'' \<or> step_tool stp = Some ''MODULO'')
      \<and> (case py_getitem (step_args stp) 1 of
            Inr x1 \<Rightarrow> py_float env x1 = Inr 0
          | Inl e \<Rightarrow> False))"

section \<open>Sequences of requests\<close>

text \<open>
  Any number of calls of \<open>ask_system\<close>, one after the other on the same dictionaries
  (as the loop of \<open>main\<close> makes them), each with its own fuel, whatever each call
  returns or raises: the state after the last one, \<open>None\<close> if a conversation has not
  ended.
\<close>

fun ask_all ::
  "('g, 'o) env \<Rightarrow> (nat \<times> string) list \<Rightarrow> ('g, 'o) world \<Rightarrow> ('g, 'o) world option" where
  "ask_all env [] s = Some s"
| "ask_all env ((fuel, q) # rest) s =
     (case ask_system env fuel q s of
        None \<Rightarrow> None
      | Some (r, s') \<Rightarrow> ask_all env rest s')"

text \<open>A state in which the request \<open>hello\<close> has a cached plan, one that divides by zero.\<close>

definition cached_world :: "(nat, nat) world" where
  "cached_world = initial_world\<lparr>virtual_tools := [''hello'' \<mapsto> plan_quotient_zero]\<rparr>"

text \<open>
  The states of the example after a first request \<open>hello\<close>, after a second one with the
  same signature, and after two more requests.
\<close>

definition world_after_first :: "(nat, nat) world" where
  "world_after_first = snd (the (ask_system example_env 1 ''hello'' initial_world))"

definition world_after_second :: "(nat, nat) world" where
  "world_after_second = snd (the (ask_system example_env 1 '' HELLO '' world_after_first))"

definition later_requests :: "(nat \<times> string) list" where
  "later_requests = [(1, ''hello''), (1, ''what else'')]"

definition world_after_more :: "(nat, nat) world" where
  "world_after_more = the (ask_all example_env later_requests world_after_second)"

section \<open>The request signature\<close>

lemma isspace_char_lower: "isspace (char_lower c) = isspace c"
  unfolding isspace_def char_lower_def Let_def by auto

lemma char_lower_idem: "char_lower (char_lower c) = char_lower c"
  unfolding char_lower_def Let_def by auto

lemma lower_idem: "lower (lower s) = lower s"
  by (simp add: lower_def char_lower_idem)

lemma dropWhile_isspace_lower: "dropWhile isspace (lower s) = lower (dropWhile isspace s)"
  unfolding lower_def by (induction s) (auto simp: isspace_char_lower)

lemma strip_lower: "strip (lower s) = lower (strip s)"
  by (metis dropWhile_isspace_lower lower_def rev_map strip_def)

lemma dropWhile_snoc_keep: "\<not> P x \<Longrightarrow> \<exists>zs. dropWhile P (ys @ [x]) = zs @ [x]"
  by (induction ys) auto

lemma strip_no_lead: "strip s = [] \<or> \<not> isspace (hd (strip s))"
proof (cases "dropWhile isspace s")
  case Nil
  show ?thesis unfolding strip_def Nil by simp
next
  case (Cons x xs)
  have "\<not> isspace (hd (dropWhile isspace s))"
    by (rule hd_dropWhile) (simp add: Cons)
  then have nx: "\<not> isspace x" unfolding Cons by simp
  obtain zs where zs: "dropWhile isspace (rev xs @ [x]) = zs @ [x]"
    using dropWhile_snoc_keep[of isspace x "rev xs"] nx by blast
  have "strip s = x # rev zs" unfolding strip_def Cons using zs by simp
  then show ?thesis using nx by simp
qed

lemma strip_no_trail: "rev (strip s) = [] \<or> \<not> isspace (hd (rev (strip s)))"
proof -
  have "rev (strip s) = dropWhile isspace (rev (dropWhile isspace s))"
    unfolding strip_def by simp
  then show ?thesis using hd_dropWhile[of isspace "rev (dropWhile isspace s)"] by metis
qed

lemma strip_idem: "strip (strip s) = strip s"
proof -
  have a: "dropWhile isspace (strip s) = strip s"
    using strip_no_lead[of s] by (auto simp: dropWhile_eq_self_iff)
  have b: "dropWhile isspace (rev (strip s)) = rev (strip s)"
    using strip_no_trail[of s] by (simp only: dropWhile_eq_self_iff)
  show ?thesis
    unfolding strip_def[of "strip s"] a b by simp
qed

lemma strip_pad:
  assumes "\<forall>c\<in>set ws1. isspace c" "\<forall>c\<in>set ws2. isspace c"
  shows "strip (ws1 @ q @ ws2) = strip q"
proof -
  have 1: "dropWhile isspace (ws1 @ q @ ws2) = dropWhile isspace (q @ ws2)"
    by (rule dropWhile_append2) (use assms(1) in simp)
  have 2: "dropWhile isspace (rev (dropWhile isspace (q @ ws2))) =
           dropWhile isspace (rev (dropWhile isspace q))"
  proof (cases "\<forall>c\<in>set q. isspace c")
    case True
    then have e1: "dropWhile isspace (q @ ws2) = []"
      using assms(2) by auto
    from True have e2: "dropWhile isspace q = []"
      by auto
    show ?thesis unfolding e1 e2 ..
  next
    case False
    then have "dropWhile isspace (q @ ws2) = dropWhile isspace q @ ws2"
      by auto
    moreover have "dropWhile isspace (rev ws2 @ rev (dropWhile isspace q)) =
        dropWhile isspace (rev (dropWhile isspace q))"
      by (rule dropWhile_append2) (use assms(2) in simp)
    ultimately show ?thesis by simp
  qed
  show ?thesis unfolding strip_def 1 2 ..
qed

text \<open>
  Claim C7. The request signature is idempotent; it does not change when white space is
  put before or after the request; two requests that are equal up to the case of their
  letters have the same signature; and the signatures of \<open>" Foo "\<close> and \<open>"foo"\<close> are
  equal.
\<close>

theorem get_question_signature_normalises:
  "get_question_signature (get_question_signature q) = get_question_signature q
   \<and> ((\<forall>c \<in> set ws1 \<union> set ws2. isspace c) \<longrightarrow>
        get_question_signature (ws1 @ q @ ws2) = get_question_signature q)
   \<and> (lower q = lower q' \<longrightarrow> get_question_signature q = get_question_signature q')
   \<and> get_question_signature '' Foo '' = get_question_signature ''foo''"
proof (intro conjI impI)
  show "get_question_signature (get_question_signature q) = get_question_signature q"
    unfolding get_question_signature_def
    by (simp add: strip_lower strip_idem lower_idem)
next
  assume "\<forall>c \<in> set ws1 \<union> set ws2. isspace c"
  then have "strip (ws1 @ q @ ws2) = strip q"
    by (intro strip_pad) auto
  then show "get_question_signature (ws1 @ q @ ws2) = get_question_signature q"
    by (simp add: get_question_signature_def)
next
  assume "lower q = lower q'"
  then have "strip (lower q) = strip (lower q')" by simp
  then show "get_question_signature q = get_question_signature q'"
    by (simp add: get_question_signature_def strip_lower)
next
  show "get_question_signature '' Foo '' = get_question_signature ''foo''"
    by code_simp
qed

theorem get_question_signature_normalises_witness:
  "get_question_signature ([CHR 0x09, CHR '' ''] @ ''Foo Bar'' @ [CHR 0x0A]) = get_question_signature ''Foo Bar''
   \<and> lower ''Foo Bar'' = lower ''fOO bAR''
   \<and> get_question_signature ''Foo Bar'' = get_question_signature ''fOO bAR''"
proof -
  have h1: "\<forall>c \<in> set [CHR 0x09, CHR '' ''] \<union> set [CHR 0x0A]. isspace c"
    by (simp add: isspace_def)
  have h2: "lower ''Foo Bar'' = lower ''fOO bAR''"
    by code_simp
  show ?thesis
    using get_question_signature_normalises
            [of "''Foo Bar''" "[CHR 0x09, CHR '' '']" "[CHR 0x0A]" "''fOO bAR''"] h1 h2
    by blast
qed

section \<open>The executor masks the unreliable primitives\<close>

lemma upper_SUM: "upper ''SUM'' = ''SUM''" by code_simp
lemma upper_PRODUCT: "upper ''PRODUCT'' = ''PRODUCT''" by code_simp


lemma verify_sum_masks:
  "same_number (if \<not> verify_unreliable ''SUM'' a b out then PyFloat (a + b) else out) (PyFloat (a + b))"
  by (cases out) (auto simp: verify_unreliable_def upper_SUM same_number_def)

lemma verify_product_masks:
  "same_number (if \<not> verify_unreliable ''PRODUCT'' a b out then PyFloat (a * b) else out) (PyFloat (a * b))"
  by (cases out) (auto simp: verify_unreliable_def upper_PRODUCT same_number_def)

lemma unreliable_sum_calls:
  "unreliable_sum env a b s = (out, s') \<Longrightarrow> unreliable_calls s' = Suc (unreliable_calls s)"
  by (auto simp: unreliable_sum_def Let_def split: prod.splits if_splits)

lemma unreliable_product_calls:
  "unreliable_product env a b s = (out, s') \<Longrightarrow> unreliable_calls s' = Suc (unreliable_calls s)"
  by (auto simp: unreliable_product_def Let_def split: prod.splits if_splits)

lemma exec_step_exact:
  "(case exec_step env i stp s of
      (Inl e, s') \<Rightarrow> exact_step env i stp = Inl e \<and> s' = s
    | (Inr v, s') \<Rightarrow> (\<exists>w. exact_step env i stp = Inr w \<and> same_number v w)
         \<and> unreliable_calls s' = unreliable_calls s + (if is_unreliable_step stp then 1 else 0))"
proof (cases stp)
  case (JObj kv)
  show ?thesis
  proof (cases "dict_get kv ''tool'' (JStr [])")
    case (JStr t)
    define args where "args = dict_get kv ''args'' (JArr [])"
    consider (sum) "upper t = ''SUM''" | (product) "upper t = ''PRODUCT''"
      | (other) "upper t \<noteq> ''SUM''" "upper t \<noteq> ''PRODUCT''"
      by blast
    then show ?thesis
    proof cases
      case sum
      show ?thesis
        using verify_sum_masks unreliable_sum_calls
        unfolding JObj exec_step_def exact_step_def is_unreliable_step_def Let_def
        by (simp add: JStr sum split: sum.splits prod.splits) blast
    next
      case product
      show ?thesis
        using verify_product_masks unreliable_product_calls
        unfolding JObj exec_step_def exact_step_def is_unreliable_step_def Let_def
        by (simp add: JStr product split: sum.splits prod.splits) blast
    next
      case other
      show ?thesis
        unfolding JObj exec_step_def exact_step_def is_unreliable_step_def Let_def
        by (simp add: JStr other same_number_def delta_def absolute_def split: sum.splits prod.splits)
    qed
  qed (simp_all add: JObj exec_step_def exact_step_def is_unreliable_step_def)
qed (simp_all add: exec_step_def exact_step_def is_unreliable_step_def)

lemma run_steps_exact:
  "list_all2 same_number res res' \<Longrightarrow>
   (case run_steps env i xs res s of
      (Inl e, s') \<Rightarrow> exact_run_steps env i xs res' = Inl e
    | (Inr r, s') \<Rightarrow> (\<exists>r'. exact_run_steps env i xs res' = Inr r' \<and> list_all2 same_number r r')
         \<and> unreliable_calls s' = unreliable_calls s + length (filter is_unreliable_step xs))"
proof (induction xs arbitrary: i res res' s)
  case Nil
  then show ?case by simp
next
  case (Cons stp rest)
  obtain r1 s1 where st: "exec_step env i stp s = (r1, s1)" by (cases "exec_step env i stp s")
  show ?case
  proof (cases r1)
    case (Inl e)
    then show ?thesis using exec_step_exact[of env i stp s] st by simp
  next
    case (Inr v)
    then obtain w where w: "exact_step env i stp = Inr w" "same_number v w"
      and c: "unreliable_calls s1 = unreliable_calls s + (if is_unreliable_step stp then 1 else 0)"
      using exec_step_exact[of env i stp s] st by auto
    have rel: "list_all2 same_number (res @ [v]) (res' @ [w])"
      using Cons.prems w(2) by (simp add: list_all2_appendI)
    show ?thesis
      using Cons.IH[OF rel, of "Suc i" s1] st Inr w(1) c
      by (auto split: sum.splits prod.splits)
  qed
qed

lemma list_getitem_related:
  "list_all2 same_number r r' \<Longrightarrow> rel_sum (=) same_number (list_getitem r k) (list_getitem r' k)"
  by (auto simp: list_getitem_def Let_def list_all2_lengthD list_all2_nthD)

lemma results_getitem_related:
  "list_all2 same_number r r' \<Longrightarrow>
   rel_sum (=) same_number (results_getitem r idx) (results_getitem r' idx)"
  by (cases idx) (simp_all add: list_getitem_related)

text \<open>
  Claim C1. Whatever the random source does, \<open>execute_plan\<close> returns what the exact
  semantics returns, where every \<open>SUM\<close> step is \<open>a + b\<close> and every \<open>PRODUCT\<close> step is
  \<open>a * b\<close>: the same answer, or the same exception. When it returns an answer, the
  unreliable primitives have been called once for each \<open>SUM\<close> or \<open>PRODUCT\<close> step of the
  plan, and no more.
\<close>

theorem execute_plan_masks_failures:
  "fst (execute_plan env plan_text s) = exact_execute_plan env plan_text
   \<and> (\<forall>ans. fst (execute_plan env plan_text s) = Inr ans \<longrightarrow>
         unreliable_calls (snd (execute_plan env plan_text s)) =
           unreliable_calls s + unreliable_step_count env plan_text)"
proof (cases "json_loads env plan_text")
  case None
  then show ?thesis by (simp add: execute_plan_def exact_execute_plan_def)
next
  case (Some plan)
  show ?thesis
  proof (cases plan)
    case (JObj kv)
    define steps where "steps = dict_get kv ''steps'' (JArr [])"
    show ?thesis
    proof (cases "py_len steps")
      case (Inl e)
      then show ?thesis using Some JObj
        by (simp add: execute_plan_def exact_execute_plan_def steps_def)
    next
      case (Inr n)
      define final_idx where "final_idx = dict_get kv ''final_step_index'' (JInt (int n - 1))"
      show ?thesis
      proof (cases "py_ge_len final_idx n")
        case (Inl e)
        then show ?thesis using Some JObj Inr
          by (simp add: execute_plan_def exact_execute_plan_def steps_def final_idx_def)
      next
        case ge: (Inr b)
        show ?thesis
        proof (cases b)
          case True
          then show ?thesis using Some JObj Inr ge
            by (simp add: execute_plan_def exact_execute_plan_def steps_def final_idx_def)
        next
          case False
          obtain r1 s1 where run: "run_steps env 0 (py_iter steps) [] s = (r1, s1)"
            by (cases "run_steps env 0 (py_iter steps) [] s")
          have unf: "execute_plan env plan_text s =
                (case r1 of Inl e \<Rightarrow> (Inl e, s1)
                 | Inr results \<Rightarrow> (case results_getitem results final_idx of
                        Inl e \<Rightarrow> (Inl e, s1) | Inr v \<Rightarrow> (float_of_pyval v, s1)))"
            unfolding execute_plan_def final_idx_def steps_def
            using Some JObj Inr ge False run
            by (simp add: steps_def final_idx_def)
          have unf': "exact_execute_plan env plan_text =
                (case exact_run_steps env 0 (py_iter steps) [] of Inl e \<Rightarrow> Inl e
                 | Inr results \<Rightarrow> (case results_getitem results final_idx of
                        Inl e \<Rightarrow> Inl e | Inr v \<Rightarrow> float_of_pyval v))"
            unfolding exact_execute_plan_def final_idx_def steps_def
            using Some JObj Inr ge False
            by (simp add: steps_def final_idx_def)
          have cnt: "unreliable_step_count env plan_text = length (filter is_unreliable_step (py_iter steps))"
            using Some JObj by (simp add: unreliable_step_count_def steps_def)
          have rs: "(case (r1, s1) of
              (Inl e, s') \<Rightarrow> exact_run_steps env 0 (py_iter steps) [] = Inl e
            | (Inr r, s') \<Rightarrow> (\<exists>r'. exact_run_steps env 0 (py_iter steps) [] = Inr r' \<and> list_all2 same_number r r')
                 \<and> unreliable_calls s' = unreliable_calls s + length (filter is_unreliable_step (py_iter steps)))"
            using run_steps_exact[of "[]" "[]" env 0 "py_iter steps" s] run by simp
          show ?thesis
          proof (cases r1)
            case (Inl e)
            then show ?thesis using rs unf unf' by simp
          next
            case (Inr r)
            then obtain r' where r': "exact_run_steps env 0 (py_iter steps) [] = Inr r'"
               "list_all2 same_number r r'"
              and c: "unreliable_calls s1 = unreliable_calls s + length (filter is_unreliable_step (py_iter steps))"
              using rs by auto
            have "rel_sum (=) same_number (results_getitem r final_idx) (results_getitem r' final_idx)"
              by (rule results_getitem_related[OF r'(2)])
            then show ?thesis
              unfolding unf unf' Inr r'(1) cnt
              by (cases "results_getitem r final_idx"; cases "results_getitem r' final_idx")
                 (simp_all add: same_number_def c)
          qed
        qed
      qed
    qed
  qed (use Some in \<open>simp_all add: execute_plan_def exact_execute_plan_def\<close>)
qed

theorem execute_plan_masks_failures_witness:
  "fst (execute_plan example_env plan_example1 initial_world) = Inr 28
   \<and> exact_execute_plan example_env plan_example1 = Inr 28
   \<and> unreliable_step_count example_env plan_example1 = 1
   \<and> unreliable_calls (snd (execute_plan example_env plan_example1 initial_world)) = 1"
proof -
  have run: "fst (execute_plan example_env plan_example1 initial_world) = Inr 28"
    by code_simp
  have cnt: "unreliable_step_count example_env plan_example1 = 1"
    by code_simp
  have "unreliable_calls initial_world = 0"
    by (simp add: initial_world_def)
  then show ?thesis
    using execute_plan_masks_failures[of example_env plan_example1 initial_world] run cnt
    by simp
qed

section \<open>How a plan fails\<close>

lemma run_steps_append:
  "run_steps env i (xs @ ys) res s =
     (case run_steps env i xs res s of
        (Inl e, s') \<Rightarrow> (Inl e, s')
      | (Inr res', s') \<Rightarrow> run_steps env (i + length xs) ys res' s')"
  by (induction xs arbitrary: i res s) (auto split: prod.splits sum.splits)

lemma run_steps_length:
  "run_steps env i xs res s = (Inr res', s') \<Longrightarrow> length res' = length res + length xs"
  by (induction xs arbitrary: i res s) (auto split: prod.splits sum.splits)

lemma run_steps_fails_at:
  assumes "i < length xs" "run_steps env 0 (take i xs) [] s = (Inr res, s1)"
    "exec_step env i (xs ! i) s1 = (Inl e, s2)"
  shows "run_steps env 0 xs [] s = (Inl e, s2)"
proof -
  have xs: "xs = take i xs @ (xs ! i) # drop (Suc i) xs"
    using assms(1) by (simp add: id_take_nth_drop)
  have "run_steps env 0 (take i xs @ (xs ! i) # drop (Suc i) xs) [] s = (Inl e, s2)"
    unfolding run_steps_append using assms by simp
  then show ?thesis using xs by simp
qed

lemma execute_plan_steps:
  assumes "json_loads env plan_text = Some (JObj kv)" "dict_get kv ''steps'' (JArr []) = JArr xs"
    "py_ge_len (dict_get kv ''final_step_index'' (JInt (int (length xs) - 1))) (length xs) = Inr False"
  shows "execute_plan env plan_text s =
     (case run_steps env 0 xs [] s of
        (Inl e, s') \<Rightarrow> (Inl e, s')
      | (Inr results, s') \<Rightarrow>
          (case results_getitem results (dict_get kv ''final_step_index'' (JInt (int (length xs) - 1))) of
             Inl e \<Rightarrow> (Inl e, s')
           | Inr v \<Rightarrow> (float_of_pyval v, s')))"
  unfolding execute_plan_def using assms by simp

lemma reaches_step_fails:
  assumes "reaches_step env plan_text s i = Some (stp, s1)" "exec_step env i stp s1 = (Inl e, s2)"
  shows "execute_plan env plan_text s = (Inl e, s2)"
proof -
  from assms(1) obtain kv xs res where
    l: "json_loads env plan_text = Some (JObj kv)" and
    st: "dict_get kv ''steps'' (JArr []) = JArr xs" and
    ge: "py_ge_len (dict_get kv ''final_step_index'' (JInt (int (length xs) - 1))) (length xs) = Inr False" and
    i: "i < length xs" and run: "run_steps env 0 (take i xs) [] s = (Inr res, s1)" and x: "xs ! i = stp"
    unfolding reaches_step_def
    by (auto split: option.splits json.splits if_splits prod.splits sum.splits)
  have "run_steps env 0 xs [] s = (Inl e, s2)"
    using run_steps_fails_at[OF i run] assms(2) x by simp
  then show ?thesis unfolding execute_plan_steps[OF l st ge] by simp
qed

lemma exec_step_tool:
  "step_tool stp = Some T \<Longrightarrow>
   exec_step env i stp s =
     (let args = step_args stp in
      if T = ''SUM'' then
        (case py_len args of Inl e \<Rightarrow> (Inl e, s) | Inr n \<Rightarrow>
           if n < 2 then (Inl (ValueError ''SUM needs 2 args''), s)
           else (case float_args2 env args of Inl e \<Rightarrow> (Inl e, s) | Inr (a, b) \<Rightarrow>
             (let (out, s') = unreliable_sum env a b s
              in (Inr (if \<not> verify_unreliable ''SUM'' a b out then PyFloat (a + b) else out), s'))))
      else if T = ''PRODUCT'' then
        (case py_len args of Inl e \<Rightarrow> (Inl e, s) | Inr n \<Rightarrow>
           if n < 2 then (Inl (ValueError ''PRODUCT needs 2 args''), s)
           else (case float_args2 env args of Inl e \<Rightarrow> (Inl e, s) | Inr (a, b) \<Rightarrow>
             (let (out, s') = unreliable_product env a b s
              in (Inr (if \<not> verify_unreliable ''PRODUCT'' a b out then PyFloat (a * b) else out), s'))))
      else if T = ''DELTA'' then
        (case float_args2 env args of Inl e \<Rightarrow> (Inl e, s) | Inr (a, b) \<Rightarrow>
           (Inr (PyFloat (delta a b)), s))
      else if T = ''QUOTIENT'' then
        (case float_args2 env args of Inl e \<Rightarrow> (Inl e, s) | Inr (a, b) \<Rightarrow>
           (case quotient_tool a b of Inl e \<Rightarrow> (Inl e, s) | Inr r \<Rightarrow> (Inr (PyFloat r), s)))
      else if T = ''MODULO'' then
        (case float_args2 env args of Inl e \<Rightarrow> (Inl e, s) | Inr (a, b) \<Rightarrow>
           (case modulo_tool a b of Inl e \<Rightarrow> (Inl e, s) | Inr r \<Rightarrow> (Inr (PyFloat r), s)))
      else if T = ''POWER'' then
        (case float_args2 env args of Inl e \<Rightarrow> (Inl e, s) | Inr (a, b) \<Rightarrow>
           (case power_tool a b of Inl e \<Rightarrow> (Inl e, s) | Inr v \<Rightarrow> (Inr v, s)))
      else if T = ''ABS'' then
        (case float_args1 env args of Inl e \<Rightarrow> (Inl e, s) | Inr a \<Rightarrow>
           (Inr (PyFloat (absolute a)), s))
      else (Inl (ValueError (unknown_tool_msg T i)), s))"
proof -
  assume "step_tool stp = Some T"
  then obtain kv t where stp: "stp = JObj kv" and t: "dict_get kv ''tool'' (JStr []) = JStr t"
    and T: "T = upper t"
    unfolding step_tool_def by (auto split: json.splits)
  have args: "step_args (JObj kv) = dict_get kv ''args'' (JArr [])"
    by (simp add: step_args_def)
  show ?thesis
    unfolding stp T exec_step_def args Let_def by (simp add: t)
qed

lemma final_index_too_large:
  assumes "json_loads env plan_text = Some (JObj kv)"
    "py_len (dict_get kv ''steps'' (JArr [])) = Inr n"
    "dict_get kv ''final_step_index'' (JInt (int n - 1)) = JInt k" "int n \<le> k"
  shows "execute_plan env plan_text s = (Inl (ValueError ''invalid final_step_index''), s)"
  unfolding execute_plan_def using assms by simp

text \<open>
  Claim C4, on the inputs where the code departs from it. With two steps, the final
  index \<open>-1\<close> is not rejected: the plan runs and its last result, 28, is returned. The
  index \<open>-5\<close> passes the check too, and only the final lookup raises, an \<open>IndexError\<close>.
  The index 5 is rejected by the check, as the claim says.
\<close>

theorem negative_final_index_not_rejected:
  "fst (execute_plan example_env plan_index_minus_1 initial_world) = Inr 28
   \<and> fst (execute_plan example_env plan_index_minus_5 initial_world) = Inl IndexError
   \<and> fst (execute_plan example_env plan_index_5 initial_world) = Inl (ValueError ''invalid final_step_index'')"
proof (intro conjI)
  show "fst (execute_plan example_env plan_index_minus_1 initial_world) = Inr 28"
    by code_simp
  show "fst (execute_plan example_env plan_index_minus_5 initial_world) = Inl IndexError"
    by code_simp
  show "fst (execute_plan example_env plan_index_5 initial_world) = Inl (ValueError ''invalid final_step_index'')"
    by code_simp
qed

text \<open>
  Claim C10. When the execution of a plan reaches a \<open>POWER\<close> step whose first argument
  is 0 and whose second argument is negative, \<open>execute_plan\<close> raises
  \<open>ZeroDivisionError\<close>. The plan \<open>plan_power_zero\<close>, a single such step, is an instance.
\<close>

theorem power_zero_negative_raises:
  assumes "reaches_step env plan_text s i = Some (stp, s1)"
    and "step_tool stp = Some ''POWER''"
    and "float_args2 env (step_args stp) = Inr (0, b)"
    and "b < 0"
  shows "execute_plan env plan_text s =
           (Inl (ZeroDivisionError ''0.0 cannot be raised to a negative power''), s1)"
proof -
  have "exec_step env i stp s1 =
          (Inl (ZeroDivisionError ''0.0 cannot be raised to a negative power''), s1)"
    using assms(3,4) by (simp add: exec_step_tool[OF assms(2)] power_tool_def)
  then show ?thesis by (rule reaches_step_fails[OF assms(1)])
qed

theorem power_zero_negative_raises_witness:
  "fst (execute_plan example_env plan_power_zero initial_world) =
     Inl (ZeroDivisionError ''0.0 cannot be raised to a negative power'')"
proof -
  have "map_option fst (reaches_step example_env plan_power_zero initial_world 0) =
          Some (json_step ''POWER'' [JInt 0, JInt (- 1)])"
    by code_simp
  then obtain s1 where h1: "reaches_step example_env plan_power_zero initial_world 0 =
              Some (json_step ''POWER'' [JInt 0, JInt (- 1)], s1)"
    by (cases "reaches_step example_env plan_power_zero initial_world 0") auto
  have h2: "step_tool (json_step ''POWER'' [JInt 0, JInt (- 1)]) = Some ''POWER''"
    by code_simp
  have h3: "float_args2 example_env (step_args (json_step ''POWER'' [JInt 0, JInt (- 1)])) = Inr (0, - 1)"
    by code_simp
  show ?thesis
    using power_zero_negative_raises[OF h1 h2 h3] by simp
qed

section \<open>Division by zero\<close>

lemma float_args2_second_zero:
  assumes "py_getitem args 1 = Inr x1" "py_float env x1 = Inr 0"
  shows "(\<exists>e. float_args2 env args = Inl e) \<or> (\<exists>a. float_args2 env args = Inr (a, 0))"
proof (cases "py_getitem args 0")
  case (Inl e)
  then show ?thesis unfolding float_args2_def by simp
next
  case x0: (Inr x0)
  show ?thesis
  proof (cases "py_float env x0")
    case (Inl e)
    then show ?thesis unfolding float_args2_def using x0 by simp
  next
    case (Inr a)
    then show ?thesis unfolding float_args2_def using x0 assms by simp
  qed
qed

lemma float_args2_first:
  assumes "float_args1 env args = Inr a" "py_getitem args 1 = Inr x1" "py_float env x1 = Inr b"
  shows "float_args2 env args = Inr (a, b)"
proof (cases "py_getitem args 0")
  case (Inl e)
  then show ?thesis using assms(1) unfolding float_args1_def by simp
next
  case (Inr x0)
  then have "py_float env x0 = Inr a" using assms(1) unfolding float_args1_def by simp
  then show ?thesis unfolding float_args2_def using Inr assms(2,3) by simp
qed

lemma divides_by_zero_cases:
  assumes "divides_by_zero env stp"
  obtains T x1 where "step_tool stp = Some T" "T = ''QUOTIENT'' \<or> T = ''MODULO''"
    "py_getitem (step_args stp) 1 = Inr x1" "py_float env x1 = Inr 0"
proof (cases "py_getitem (step_args stp) 1")
  case (Inl e)
  then show ?thesis using assms unfolding divides_by_zero_def by simp
next
  case (Inr x1)
  then have "py_float env x1 = Inr 0" using assms unfolding divides_by_zero_def by simp
  moreover have "step_tool stp = Some ''QUOTIENT'' \<or> step_tool stp = Some ''MODULO''"
    using assms unfolding divides_by_zero_def by simp
  ultimately show ?thesis using that Inr by blast
qed

lemma divides_by_zero_step_fails:
  assumes "divides_by_zero env stp"
  shows "\<exists>e. exec_step env i stp s = (Inl e, s)"
proof -
  from assms obtain T x1 where T: "step_tool stp = Some T" "T = ''QUOTIENT'' \<or> T = ''MODULO''"
    and x1: "py_getitem (step_args stp) 1 = Inr x1" "py_float env x1 = Inr 0"
    by (rule divides_by_zero_cases)
  from float_args2_second_zero[OF x1] show ?thesis
  proof
    assume "\<exists>e. float_args2 env (step_args stp) = Inl e"
    then obtain e where "float_args2 env (step_args stp) = Inl e" ..
    then show ?thesis using T(2) unfolding exec_step_tool[OF T(1)] Let_def by auto
  next
    assume "\<exists>a. float_args2 env (step_args stp) = Inr (a, 0)"
    then obtain a where "float_args2 env (step_args stp) = Inr (a, 0)" ..
    then show ?thesis using T(2) unfolding exec_step_tool[OF T(1)] Let_def
      by (auto simp: quotient_tool_def modulo_tool_def)
  qed
qed

lemma divides_by_zero_step_raises:
  assumes "divides_by_zero env stp" "float_args1 env (step_args stp) = Inr a"
  shows "\<exists>msg. exec_step env i stp s = (Inl (ZeroDivisionError msg), s)"
proof -
  from assms(1) obtain T x1 where T: "step_tool stp = Some T" "T = ''QUOTIENT'' \<or> T = ''MODULO''"
    and x1: "py_getitem (step_args stp) 1 = Inr x1" "py_float env x1 = Inr 0"
    by (rule divides_by_zero_cases)
  have "float_args2 env (step_args stp) = Inr (a, 0)"
    by (rule float_args2_first[OF assms(2) x1])
  then show ?thesis using T(2) unfolding exec_step_tool[OF T(1)] Let_def
    by (auto simp: quotient_tool_def modulo_tool_def)
qed

lemma run_steps_with_failing_step:
  assumes "stp \<in> set xs" "\<And>i s. \<exists>e. exec_step env i stp s = (Inl e, s)"
  shows "\<exists>e. fst (run_steps env i xs res s) = Inl e"
  using assms(1)
proof (induction xs arbitrary: i res s)
  case Nil
  then show ?case by simp
next
  case (Cons x rest)
  obtain r s' where st: "exec_step env i x s = (r, s')" by (cases "exec_step env i x s")
  show ?case
  proof (cases r)
    case (Inl e)
    then show ?thesis using st by simp
  next
    case (Inr v)
    have "x \<noteq> stp" using assms(2)[of i s] st Inr by auto
    then have "stp \<in> set rest" using Cons.prems by simp
    then show ?thesis using Cons.IH st Inr by simp
  qed
qed

text \<open>
  Claim C8, as amended. A plan that contains a \<open>QUOTIENT\<close> or \<open>MODULO\<close> step whose
  second argument is 0 returns no answer: \<open>execute_plan\<close> raises. When the execution
  reaches that step and its first argument converts to a float, the exception is
  \<open>ZeroDivisionError\<close>.
\<close>

theorem division_by_zero_step_fails:
  assumes "divides_by_zero env stp"
  shows "(json_loads env plan_text = Some (JObj kv) \<and> dict_get kv ''steps'' (JArr []) = JArr xs
            \<and> stp \<in> set xs
          \<longrightarrow> (\<exists>e. fst (execute_plan env plan_text s) = Inl e))
       \<and> (reaches_step env plan_text s i = Some (stp, sr) \<and> float_args1 env (step_args stp) = Inr a
          \<longrightarrow> (\<exists>msg. execute_plan env plan_text s = (Inl (ZeroDivisionError msg), sr)))"
proof (intro conjI impI; elim conjE)
  assume l: "json_loads env plan_text = Some (JObj kv)"
    and st: "dict_get kv ''steps'' (JArr []) = JArr xs" and mem: "stp \<in> set xs"
  define final_idx where "final_idx = dict_get kv ''final_step_index'' (JInt (int (length xs) - 1))"
  obtain e where run: "fst (run_steps env 0 xs [] s) = Inl e"
    using run_steps_with_failing_step[OF mem, of env 0 "[]" s]
      divides_by_zero_step_fails[OF assms] by blast
  show "\<exists>e. fst (execute_plan env plan_text s) = Inl e"
  proof (cases "py_ge_len final_idx (length xs)")
    case (Inl e')
    then show ?thesis unfolding execute_plan_def using l st by (simp add: final_idx_def)
  next
    case (Inr b)
    show ?thesis
    proof (cases b)
      case True
      then show ?thesis unfolding execute_plan_def using l st Inr by (simp add: final_idx_def)
    next
      case False
      have ge: "py_ge_len (dict_get kv ''final_step_index'' (JInt (int (length xs) - 1))) (length xs) = Inr False"
        using Inr False by (simp add: final_idx_def)
      show ?thesis
        unfolding execute_plan_steps[OF l st ge] using run
        by (cases "run_steps env 0 xs [] s") auto
    qed
  qed
next
  assume r: "reaches_step env plan_text s i = Some (stp, sr)"
    and a: "float_args1 env (step_args stp) = Inr a"
  obtain msg where "exec_step env i stp sr = (Inl (ZeroDivisionError msg), sr)"
    using divides_by_zero_step_raises[OF assms a] by blast
  then show "\<exists>msg. execute_plan env plan_text s = (Inl (ZeroDivisionError msg), sr)"
    using reaches_step_fails[OF r] by blast
qed

theorem division_by_zero_step_fails_witness:
  "fst (execute_plan example_env plan_quotient_zero initial_world) =
     Inl (ZeroDivisionError ''Division by zero.'')"
proof -
  let ?stp = "json_step ''QUOTIENT'' [JInt 5, JInt 0]"
  have h0: "divides_by_zero example_env ?stp"
    by code_simp
  have "map_option fst (reaches_step example_env plan_quotient_zero initial_world 0) = Some ?stp"
    by code_simp
  then obtain s1 where h1: "reaches_step example_env plan_quotient_zero initial_world 0 = Some (?stp, s1)"
    by (cases "reaches_step example_env plan_quotient_zero initial_world 0") auto
  have h2: "float_args1 example_env (step_args ?stp) = Inr 5"
    by code_simp
  have run: "fst (execute_plan example_env plan_quotient_zero initial_world) =
     Inl (ZeroDivisionError ''Division by zero.'')"
    by code_simp
  obtain msg where "execute_plan example_env plan_quotient_zero initial_world = (Inl (ZeroDivisionError msg), s1)"
    using division_by_zero_step_fails[OF h0, where plan_text = plan_quotient_zero
        and s = initial_world and i = 0 and sr = s1 and a = 5] h1 h2
    by blast
  then show ?thesis using run by simp
qed

text \<open>
  The exception need not be \<open>ZeroDivisionError\<close>: the check of the final index comes
  first. This plan has a \<open>QUOTIENT\<close> step that divides by 0 and the final index 5, and
  it is rejected for the index.
\<close>

theorem division_by_zero_not_always_reported:
  "json_loads example_env plan_quotient_zero_index_5 =
     Some (json_plan [json_step ''QUOTIENT'' [JInt 5, JInt 0]] 5)
   \<and> divides_by_zero example_env (json_step ''QUOTIENT'' [JInt 5, JInt 0])
   \<and> fst (execute_plan example_env plan_quotient_zero_index_5 initial_world) =
       Inl (ValueError ''invalid final_step_index'')"
proof (intro conjI)
  show "json_loads example_env plan_quotient_zero_index_5 =
     Some (json_plan [json_step ''QUOTIENT'' [JInt 5, JInt 0]] 5)"
    by code_simp
  show "divides_by_zero example_env (json_step ''QUOTIENT'' [JInt 5, JInt 0])"
    by code_simp
  show "fst (execute_plan example_env plan_quotient_zero_index_5 initial_world) =
       Inl (ValueError ''invalid final_step_index'')"
    by code_simp
qed

section \<open>The number of arguments\<close>

lemma float_args2_JArr:
  "float_args2 env (JArr (a # b # extra)) =
     (case py_float env a of Inl e \<Rightarrow> Inl e
      | Inr x \<Rightarrow> (case py_float env b of Inl e \<Rightarrow> Inl e | Inr y \<Rightarrow> Inr (x, y)))"
  by (cases "py_float env a") (simp_all add: float_args2_def)

lemma float_args1_JArr: "float_args1 env (JArr (a # extra)) = py_float env a"
  by (simp add: float_args1_def)

lemma step_tool_json_step: "step_tool (json_step t args) = Some (upper t)"
  by (simp add: step_tool_def json_step_def dict_get_def)

lemma step_args_json_step: "step_args (json_step t args) = JArr args"
  by (simp add: step_args_def json_step_def dict_get_def)

lemma exec_step_extra_args:
  "exec_step env i (json_step t (a # b # extra)) s = exec_step env i (json_step t [a, b]) s"
  unfolding exec_step_tool[OF step_tool_json_step] step_args_json_step Let_def
    float_args2_JArr float_args1_JArr
  by simp

lemma exec_step_abs_extra_args:
  assumes "upper t = ''ABS''"
  shows "exec_step env i (json_step t (a # extra)) s = exec_step env i (json_step t [a]) s"
  unfolding exec_step_tool[OF step_tool_json_step] step_args_json_step Let_def assms
    float_args1_JArr
  by simp

text \<open>
  Claim C3, as amended. When the execution reaches a \<open>SUM\<close> or \<open>PRODUCT\<close> step with
  fewer than two arguments, \<open>execute_plan\<close> raises the \<open>ValueError\<close> that names the tool
  (\<open>SUM needs 2 args\<close>, \<open>PRODUCT needs 2 args\<close>). Arguments beyond the second are
  ignored by every tool, and \<open>ABS\<close> ignores those beyond the first: the step runs as it
  does without them.
\<close>

theorem sum_product_arity_check:
  "(reaches_step env plan_text s i = Some (stp, sr) \<and> step_tool stp = Some T
      \<and> (T = ''SUM'' \<or> T = ''PRODUCT'') \<and> py_len (step_args stp) = Inr n \<and> n < 2
    \<longrightarrow> execute_plan env plan_text s = (Inl (ValueError (T @ '' needs 2 args'')), sr))
   \<and> exec_step env j (json_step t (a # b # extra)) s = exec_step env j (json_step t [a, b]) s
   \<and> (upper t = ''ABS'' \<longrightarrow>
        exec_step env j (json_step t (a # extra')) s = exec_step env j (json_step t [a]) s)"
proof (intro conjI impI; (elim conjE)?)
  assume r: "reaches_step env plan_text s i = Some (stp, sr)" and T: "step_tool stp = Some T"
    and TT: "T = ''SUM'' \<or> T = ''PRODUCT''" and n: "py_len (step_args stp) = Inr n" "n < 2"
  have "exec_step env i stp sr = (Inl (ValueError (T @ '' needs 2 args'')), sr)"
    using TT n unfolding exec_step_tool[OF T] Let_def by auto
  then show "execute_plan env plan_text s = (Inl (ValueError (T @ '' needs 2 args'')), sr)"
    by (rule reaches_step_fails[OF r])
next
  show "exec_step env j (json_step t (a # b # extra)) s = exec_step env j (json_step t [a, b]) s"
    by (rule exec_step_extra_args)
next
  assume "upper t = ''ABS''"
  then show "exec_step env j (json_step t (a # extra')) s = exec_step env j (json_step t [a]) s"
    by (rule exec_step_abs_extra_args)
qed

theorem sum_product_arity_check_witness:
  "fst (execute_plan example_env plan_sum_one_arg initial_world) = Inl (ValueError ''SUM needs 2 args'')
   \<and> exec_step example_env 0 (json_step ''abs'' [JInt (- 6), JInt 4]) initial_world =
       exec_step example_env 0 (json_step ''abs'' [JInt (- 6)]) initial_world"
proof -
  let ?stp = "json_step ''SUM'' [JInt 1]"
  have "map_option fst (reaches_step example_env plan_sum_one_arg initial_world 0) = Some ?stp"
    by code_simp
  then obtain s1 where h1: "reaches_step example_env plan_sum_one_arg initial_world 0 = Some (?stp, s1)"
    by (cases "reaches_step example_env plan_sum_one_arg initial_world 0") auto
  have h2: "step_tool ?stp = Some ''SUM''" by code_simp
  have h3: "py_len (step_args ?stp) = Inr 1" by code_simp
  have h4: "upper ''abs'' = ''ABS''" by code_simp
  show ?thesis
    using sum_product_arity_check[where env = example_env and plan_text = plan_sum_one_arg
            and s = initial_world and i = 0 and stp = ?stp and sr = s1 and T = "''SUM''" and n = 1
            and j = 0 and t = "''abs''" and a = "JInt (- 6)" and extra' = "[JInt 4]"] h1 h2 h3 h4
    by simp
qed

text \<open>
  A step with more arguments than its tool takes is not rejected: this plan gives
  \<open>ABS\<close> two arguments and returns 6.
\<close>

theorem abs_accepts_second_argument:
  "step_tool (json_step ''ABS'' [JInt (- 6), JInt 4]) = Some ''ABS''
   \<and> py_len (step_args (json_step ''ABS'' [JInt (- 6), JInt 4])) = Inr 2
   \<and> json_loads example_env plan_abs_two_args = Some (json_plan [json_step ''ABS'' [JInt (- 6), JInt 4]] 0)
   \<and> fst (execute_plan example_env plan_abs_two_args initial_world) = Inr 6"
proof (intro conjI)
  show "step_tool (json_step ''ABS'' [JInt (- 6), JInt 4]) = Some ''ABS''" by code_simp
  show "py_len (step_args (json_step ''ABS'' [JInt (- 6), JInt 4])) = Inr 2" by code_simp
  show "json_loads example_env plan_abs_two_args = Some (json_plan [json_step ''ABS'' [JInt (- 6), JInt 4]] 0)"
    by code_simp
  show "fst (execute_plan example_env plan_abs_two_args initial_world) = Inr 6" by code_simp
qed

section \<open>A plan without a final index\<close>

text \<open>
  Claim C9. When the decoded plan has no \<open>final_step_index\<close> and its \<open>steps\<close> is a
  non-empty list, \<open>execute_plan\<close> runs the steps and returns the result of the last one
  (as a float); it raises only what a step raises, or what \<open>float\<close> raises on that last
  result.
\<close>

theorem missing_final_step_index_defaults_to_last:
  assumes "json_loads env plan_text = Some (JObj kv)"
    and "map_of kv ''final_step_index'' = None"
    and "map_of kv ''steps'' = Some (JArr xs)"
    and "xs \<noteq> []"
  shows "execute_plan env plan_text s =
           (case run_steps env 0 xs [] s of
              (Inl e, s') \<Rightarrow> (Inl e, s')
            | (Inr results, s') \<Rightarrow> (float_of_pyval (last results), s'))
         \<and> (\<forall>results s'. run_steps env 0 xs [] s = (Inr results, s') \<longrightarrow> length results = length xs)"
proof -
  have st: "dict_get kv ''steps'' (JArr []) = JArr xs"
    using assms(3) by (simp add: dict_get_def)
  have fi: "dict_get kv ''final_step_index'' (JInt (int (length xs) - 1)) = JInt (int (length xs) - 1)"
    using assms(2) by (simp add: dict_get_def)
  have ge: "py_ge_len (dict_get kv ''final_step_index'' (JInt (int (length xs) - 1))) (length xs) = Inr False"
    unfolding fi by simp
  have len: "length results = length xs" if "run_steps env 0 xs [] s = (Inr results, s')" for results s'
    using run_steps_length[OF that] by simp
  have "results_getitem results (JInt (int (length xs) - 1)) = Inr (last results)"
    if "run_steps env 0 xs [] s = (Inr results, s')" for results s'
  proof -
    have l: "length results = length xs" by (rule len[OF that])
    then have ne: "results \<noteq> []" using assms(4) by auto
    have "nat (int (length xs) - 1) = length results - 1" using l by simp
    then show ?thesis
      using l ne assms(4) by (simp add: list_getitem_def Let_def last_conv_nth)
  qed
  then have "execute_plan env plan_text s =
           (case run_steps env 0 xs [] s of
              (Inl e, s') \<Rightarrow> (Inl e, s')
            | (Inr results, s') \<Rightarrow> (float_of_pyval (last results), s'))"
    unfolding execute_plan_steps[OF assms(1) st ge] fi
    by (cases "run_steps env 0 xs [] s") (auto split: sum.splits)
  then show ?thesis using len by blast
qed

theorem missing_final_step_index_defaults_to_last_witness:
  "fst (execute_plan example_env plan_no_final initial_world) = Inr 28
   \<and> map_option length (case fst (run_steps example_env 0 steps_example1 [] initial_world) of
        Inr results \<Rightarrow> Some results | Inl e \<Rightarrow> None) = Some 2"
proof -
  have h1: "json_loads example_env plan_no_final = Some (JObj [(''steps'', JArr steps_example1)])"
    by code_simp
  have h2: "map_of [(''steps'', JArr steps_example1)] ''final_step_index'' = None"
    by simp
  have h3: "map_of [(''steps'', JArr steps_example1)] ''steps'' = Some (JArr steps_example1)"
    by simp
  have h4: "steps_example1 \<noteq> []"
    by (simp add: steps_example1_def)
  have run: "fst (run_steps example_env 0 steps_example1 [] initial_world) = Inr [PyFloat (- 7), PyFloat 28]"
    by code_simp
  show ?thesis
    using missing_final_step_index_defaults_to_last[OF h1 h2 h3 h4, of initial_world] run
    by (cases "run_steps example_env 0 steps_example1 [] initial_world") auto
qed

section \<open>What a request changes\<close>

text \<open>The part of the state that executing a plan leaves alone.\<close>

lemma unreliable_sum_frame:
  "oracle_state (snd (unreliable_sum env a b s)) = oracle_state s
   \<and> virtual_tools (snd (unreliable_sum env a b s)) = virtual_tools s
   \<and> success_count (snd (unreliable_sum env a b s)) = success_count s"
  by (simp add: unreliable_sum_def Let_def split: prod.splits)

lemma unreliable_product_frame:
  "oracle_state (snd (unreliable_product env a b s)) = oracle_state s
   \<and> virtual_tools (snd (unreliable_product env a b s)) = virtual_tools s
   \<and> success_count (snd (unreliable_product env a b s)) = success_count s"
  by (simp add: unreliable_product_def Let_def split: prod.splits)

lemma exec_step_no_tool:
  "step_tool stp = None \<Longrightarrow> exec_step env i stp s = (Inl AttributeError, s)"
  unfolding step_tool_def exec_step_def by (auto split: json.splits)

lemma exec_step_state:
  "snd (exec_step env i stp s) = s
   \<or> (\<exists>a b. snd (exec_step env i stp s) = snd (unreliable_sum env a b s))
   \<or> (\<exists>a b. snd (exec_step env i stp s) = snd (unreliable_product env a b s))"
proof (cases "step_tool stp")
  case None
  then show ?thesis by (simp add: exec_step_no_tool)
next
  case (Some T)
  consider (sum) "T = ''SUM''" | (product) "T = ''PRODUCT''"
    | (other) "T \<noteq> ''SUM''" "T \<noteq> ''PRODUCT''" by blast
  then show ?thesis
  proof cases
    case sum
    show ?thesis
      unfolding exec_step_tool[OF Some] Let_def sum
      by (simp split: sum.splits prod.splits) (metis snd_conv)
  next
    case product
    show ?thesis
      unfolding exec_step_tool[OF Some] Let_def product
      by (simp split: sum.splits prod.splits) (metis snd_conv)
  next
    case other
    have "snd (exec_step env i stp s) = s"
      unfolding exec_step_tool[OF Some] Let_def
      by (simp add: other split: sum.splits prod.splits)
    then show ?thesis ..
  qed
qed

lemma exec_step_frame:
  assumes "exec_step env i stp s = (r, s')"
  shows "oracle_state s' = oracle_state s \<and> virtual_tools s' = virtual_tools s
   \<and> success_count s' = success_count s"
proof -
  have s': "s' = snd (exec_step env i stp s)" using assms by simp
  from exec_step_state[of env i stp s] show ?thesis
    unfolding s' using unreliable_sum_frame[of env _ _ s] unreliable_product_frame[of env _ _ s]
    by (elim disjE exE) simp_all
qed

lemma run_steps_frame:
  "run_steps env i xs res s = (r, s') \<Longrightarrow>
   oracle_state s' = oracle_state s \<and> virtual_tools s' = virtual_tools s
   \<and> success_count s' = success_count s"
proof (induction xs arbitrary: i res s)
  case Nil
  then show ?case by simp
next
  case (Cons x xs)
  obtain r1 s1 where st: "exec_step env i x s = (r1, s1)" by (cases "exec_step env i x s")
  note f = exec_step_frame[OF st]
  show ?case
  proof (cases r1)
    case (Inl e)
    then show ?thesis using Cons.prems st f by simp
  next
    case (Inr v)
    then have "run_steps env (Suc i) xs (res @ [v]) s1 = (r, s')"
      using Cons.prems st by simp
    from Cons.IH[OF this] f show ?thesis by simp
  qed
qed

lemma execute_plan_state:
  "snd (execute_plan env plan_text s) = s
   \<or> (\<exists>xs. snd (execute_plan env plan_text s) = snd (run_steps env 0 xs [] s))"
proof (cases "json_loads env plan_text")
  case None
  then show ?thesis by (simp add: execute_plan_def)
next
  case (Some plan)
  show ?thesis
  proof (cases plan)
    case (JObj kv)
    define steps where "steps = dict_get kv ''steps'' (JArr [])"
    show ?thesis
    proof (cases "py_len steps")
      case (Inl e)
      then show ?thesis using Some JObj by (simp add: execute_plan_def steps_def)
    next
      case (Inr n)
      define final_idx where "final_idx = dict_get kv ''final_step_index'' (JInt (int n - 1))"
      show ?thesis
      proof (cases "py_ge_len final_idx n")
        case (Inl e)
        then show ?thesis using Some JObj Inr
          by (simp add: execute_plan_def steps_def final_idx_def)
      next
        case ge: (Inr b)
        show ?thesis
        proof (cases b)
          case True
          then show ?thesis using Some JObj Inr ge
            by (simp add: execute_plan_def steps_def final_idx_def)
        next
          case False
          have "snd (execute_plan env plan_text s) = snd (run_steps env 0 (py_iter steps) [] s)"
            unfolding execute_plan_def using Some JObj Inr ge False
            by (simp add: steps_def final_idx_def split: prod.splits sum.splits)
          then show ?thesis by blast
        qed
      qed
    qed
  qed (use Some in \<open>simp_all add: execute_plan_def\<close>)
qed

lemma execute_plan_frame:
  assumes "execute_plan env plan_text s = (r, s')"
  shows "oracle_state s' = oracle_state s \<and> virtual_tools s' = virtual_tools s
   \<and> success_count s' = success_count s"
proof -
  have s': "s' = snd (execute_plan env plan_text s)" using assms by simp
  from execute_plan_state[of env plan_text s] show ?thesis
  proof
    assume "snd (execute_plan env plan_text s) = s"
    then show ?thesis unfolding s' by simp
  next
    assume "\<exists>xs. snd (execute_plan env plan_text s) = snd (run_steps env 0 xs [] s)"
    then obtain xs where e: "snd (execute_plan env plan_text s) = snd (run_steps env 0 xs [] s)" ..
    obtain r1 s1 where run: "run_steps env 0 xs [] s = (r1, s1)"
      by (cases "run_steps env 0 xs [] s")
    from run_steps_frame[OF run] show ?thesis unfolding s' e run by simp
  qed
qed

section \<open>Requests served from the cache\<close>

text \<open>
  Claim C6. When the signature of a request has a cached plan, \<open>ask_system\<close> returns a
  dictionary whose \<open>via\<close> is \<open>virtual_tool\<close>, with status \<open>success\<close> or \<open>fail\<close>, for
  that plan. It does so with no fuel at all, so without any call of the chat service,
  whose state is unchanged; and both dictionaries are unchanged, so after a failure the
  entry is still there.
\<close>

theorem cache_hit_skips_discovery:
  assumes "virtual_tools s (get_question_signature q) = Some plan_text"
  shows "\<exists>out s'. ask_system env fuel q s = Some (Inr out, s')
           \<and> ask_system env 0 q s = Some (Inr out, s')
           \<and> via out = ''virtual_tool'' \<and> question out = q \<and> plan out = plan_text
           \<and> (status out = ''success'' \<or> status out = ''fail'')
           \<and> oracle_state s' = oracle_state s
           \<and> virtual_tools s' = virtual_tools s
           \<and> success_count s' = success_count s"
proof -
  obtain r s' where ex: "execute_plan env plan_text s = (r, s')"
    by (cases "execute_plan env plan_text s")
  note f = execute_plan_frame[OF ex]
  show ?thesis
  proof (cases r)
    case (Inl e)
    then show ?thesis using assms ex f by (simp add: ask_system_def)
  next
    case (Inr v)
    then show ?thesis using assms ex f by (simp add: ask_system_def)
  qed
qed

theorem cache_hit_skips_discovery_witness:
  "map_option fst (ask_system example_env 0 '' Hello '' cached_world) =
     Some (Inr \<lparr>question = '' Hello '', plan = plan_quotient_zero, answer = None,
                error = Some (ZeroDivisionError ''Division by zero.''), status = ''fail'',
                via = ''virtual_tool''\<rparr>)
   \<and> (\<exists>out s'. ask_system example_env 5 '' Hello '' cached_world = Some (Inr out, s')
         \<and> via out = ''virtual_tool''
         \<and> oracle_state s' = oracle_state cached_world
         \<and> virtual_tools s' = virtual_tools cached_world)"
proof -
  have h: "virtual_tools cached_world (get_question_signature '' Hello '') = Some plan_quotient_zero"
    by code_simp
  have e: "map_option fst (ask_system example_env 0 '' Hello '' cached_world) =
     Some (Inr \<lparr>question = '' Hello '', plan = plan_quotient_zero, answer = None,
                error = Some (ZeroDivisionError ''Division by zero.''), status = ''fail'',
                via = ''virtual_tool''\<rparr>)"
    by code_simp
  show ?thesis
    using cache_hit_skips_discovery[OF h, of example_env 5] e by blast
qed

section \<open>What the entry point returns\<close>

text \<open>
  Claim C5, as amended. When the request is served from the cache, or the conversation
  with the planner has returned a plan text, \<open>ask_system\<close> returns a dictionary with
  the request, that plan text and a status: \<open>success\<close> with an answer, or \<open>fail\<close> with
  the exception that \<open>execute_plan\<close> raised, which is caught. An exception of the chat
  service during the conversation is not caught: it leaves \<open>ask_system\<close>. And while the
  conversation has not ended, \<open>ask_system\<close> has not returned.
\<close>

theorem ask_system_outcomes:
  "(virtual_tools s (get_question_signature q) = Some plan_text
      \<or> virtual_tools s (get_question_signature q) = None
        \<and> conversation_with_planner env fuel q (oracle_state s) = Some (Inr plan_text, ost)
    \<longrightarrow> (\<exists>out s'. ask_system env fuel q s = Some (Inr out, s')
           \<and> question out = q \<and> plan out = plan_text
           \<and> (status out = ''success'' \<and> (\<exists>v. answer out = Some v) \<and> error out = None
              \<or> status out = ''fail'' \<and> answer out = None \<and> (\<exists>e. error out = Some e))))
   \<and> (virtual_tools s (get_question_signature q) = None
        \<and> conversation_with_planner env fuel q (oracle_state s) = Some (Inl e, ost)
      \<longrightarrow> ask_system env fuel q s = Some (Inl e, s\<lparr>oracle_state := ost\<rparr>))
   \<and> (virtual_tools s (get_question_signature q) = None
        \<and> conversation_with_planner env fuel q (oracle_state s) = None
      \<longrightarrow> ask_system env fuel q s = None)"
proof (intro conjI impI)
  assume "virtual_tools s (get_question_signature q) = Some plan_text
      \<or> virtual_tools s (get_question_signature q) = None
        \<and> conversation_with_planner env fuel q (oracle_state s) = Some (Inr plan_text, ost)"
  then show "\<exists>out s'. ask_system env fuel q s = Some (Inr out, s')
           \<and> question out = q \<and> plan out = plan_text
           \<and> (status out = ''success'' \<and> (\<exists>v. answer out = Some v) \<and> error out = None
              \<or> status out = ''fail'' \<and> answer out = None \<and> (\<exists>e. error out = Some e))"
  proof
    assume hit: "virtual_tools s (get_question_signature q) = Some plan_text"
    obtain r s' where ex: "execute_plan env plan_text s = (r, s')"
      by (cases "execute_plan env plan_text s")
    show ?thesis
      by (cases r) (simp_all add: ask_system_def hit ex)
  next
    assume miss: "virtual_tools s (get_question_signature q) = None
        \<and> conversation_with_planner env fuel q (oracle_state s) = Some (Inr plan_text, ost)"
    obtain r s' where ex: "execute_plan env plan_text (s\<lparr>oracle_state := ost\<rparr>) = (r, s')"
      by (cases "execute_plan env plan_text (s\<lparr>oracle_state := ost\<rparr>)")
    show ?thesis
      by (cases r) (simp_all add: ask_system_def miss ex Let_def)
  qed
next
  assume "virtual_tools s (get_question_signature q) = None
        \<and> conversation_with_planner env fuel q (oracle_state s) = Some (Inl e, ost)"
  then show "ask_system env fuel q s = Some (Inl e, s\<lparr>oracle_state := ost\<rparr>)"
    by (simp add: ask_system_def)
next
  assume "virtual_tools s (get_question_signature q) = None
        \<and> conversation_with_planner env fuel q (oracle_state s) = None"
  then show "ask_system env fuel q s = None"
    by (simp add: ask_system_def)
qed

theorem ask_system_outcomes_witness:
  "(\<exists>out s'. ask_system example_env 0 ''hello'' cached_world = Some (Inr out, s')
       \<and> question out = ''hello'' \<and> plan out = plan_quotient_zero \<and> status out = ''fail''
       \<and> error out = Some (ZeroDivisionError ''Division by zero.''))
   \<and> (\<exists>out s'. ask_system example_env 1 ''hello'' initial_world = Some (Inr out, s')
       \<and> question out = ''hello'' \<and> plan out = plan_example1 \<and> status out = ''success''
       \<and> answer out = Some 28)
   \<and> ask_system example_env 1 ''hello'' (initial_world\<lparr>oracle_state := 2\<rparr>) =
       Some (Inl (APIError ''service unavailable''), initial_world\<lparr>oracle_state := 3\<rparr>)
   \<and> ask_system example_env 0 ''hello'' initial_world = None"
proof -
  have hit: "virtual_tools cached_world (get_question_signature ''hello'') = Some plan_quotient_zero"
    by code_simp
  have e1: "map_option fst (ask_system example_env 0 ''hello'' cached_world) =
     Some (Inr \<lparr>question = ''hello'', plan = plan_quotient_zero, answer = None,
                error = Some (ZeroDivisionError ''Division by zero.''), status = ''fail'',
                via = ''virtual_tool''\<rparr>)"
    by code_simp
  have miss: "virtual_tools initial_world (get_question_signature ''hello'') = None"
    by (simp add: initial_world_def)
  have conv: "conversation_with_planner example_env 1 ''hello'' (oracle_state initial_world) =
     Some (Inr plan_example1, 1)"
    by code_simp
  have e2: "map_option fst (ask_system example_env 1 ''hello'' initial_world) =
     Some (Inr \<lparr>question = ''hello'', plan = plan_example1, answer = Some 28,
                error = None, status = ''success'', via = ''fresh_llm''\<rparr>)"
    by code_simp
  have miss2: "virtual_tools (initial_world\<lparr>oracle_state := 2\<rparr>) (get_question_signature ''hello'') = None"
    by (simp add: initial_world_def)
  have conv2: "conversation_with_planner example_env 1 ''hello'' (oracle_state (initial_world\<lparr>oracle_state := 2\<rparr>)) =
     Some (Inl (APIError ''service unavailable''), 3)"
    by code_simp
  have conv3: "conversation_with_planner example_env 0 ''hello'' (oracle_state initial_world) = None"
    by (simp add: conversation_with_planner_def)
  have a: "\<exists>out s'. ask_system example_env 0 ''hello'' cached_world = Some (Inr out, s')
       \<and> question out = ''hello'' \<and> plan out = plan_quotient_zero \<and> status out = ''fail''
       \<and> error out = Some (ZeroDivisionError ''Division by zero.'')"
    using ask_system_outcomes[of cached_world "''hello''" plan_quotient_zero example_env 0] hit e1
    by auto
  have b: "\<exists>out s'. ask_system example_env 1 ''hello'' initial_world = Some (Inr out, s')
       \<and> question out = ''hello'' \<and> plan out = plan_example1 \<and> status out = ''success''
       \<and> answer out = Some 28"
    using ask_system_outcomes[of initial_world "''hello''" plan_example1 example_env 1 1] miss conv e2
    by auto
  have c: "ask_system example_env 1 ''hello'' (initial_world\<lparr>oracle_state := 2\<rparr>) =
       Some (Inl (APIError ''service unavailable''), initial_world\<lparr>oracle_state := 3\<rparr>)"
    using ask_system_outcomes[of "initial_world\<lparr>oracle_state := 2\<rparr>" "''hello''" plan_example1
        example_env 1 3 "APIError ''service unavailable''"] miss2 conv2
    by simp
  have d: "ask_system example_env 0 ''hello'' initial_world = None"
    using ask_system_outcomes[of initial_world "''hello''" plan_example1 example_env 0] miss conv3
    by simp
  show ?thesis using a b c d by blast
qed

text \<open>
  With no cached plan and a chat service that raises, \<open>ask_system\<close> returns no
  dictionary: the exception leaves it.
\<close>

theorem chat_failure_leaves_ask_system:
  "map_option fst (ask_system example_env 1 ''hello'' (initial_world\<lparr>oracle_state := 2\<rparr>)) =
     Some (Inl (APIError ''service unavailable''))"
  by code_simp

section \<open>Promotion to a virtual tool\<close>

text \<open>What a fresh request that succeeds does to the two dictionaries.\<close>

lemma ask_system_fresh_success:
  assumes miss: "virtual_tools s (get_question_signature q) = None"
    and ask: "ask_system env fuel q s = Some (Inr out, s')"
    and ok: "status out = ''success''"
  shows "via out = ''fresh_llm''
     \<and> success_count s' (get_question_signature q) =
          Some ((case success_count s (get_question_signature q) of None \<Rightarrow> 0 | Some c \<Rightarrow> c) + 1)
     \<and> virtual_tools s' =
          (if (case success_count s (get_question_signature q) of None \<Rightarrow> 0 | Some c \<Rightarrow> c) + 1 = 2
           then (virtual_tools s)(get_question_signature q \<mapsto> plan out)
           else virtual_tools s)"
proof -
  obtain plan_text ost where conv:
    "conversation_with_planner env fuel q (oracle_state s) = Some (Inr plan_text, ost)"
  proof (cases "conversation_with_planner env fuel q (oracle_state s)")
    case None
    then show ?thesis using ask miss by (simp add: ask_system_def)
  next
    case (Some a)
    obtain c ost where a: "a = (c, ost)" by (cases a)
    show ?thesis
    proof (cases c)
      case (Inl e)
      then show ?thesis using ask miss Some a by (simp add: ask_system_def)
    next
      case (Inr plan_text)
      then show ?thesis using that Some a by simp
    qed
  qed
  obtain r s1 where ex: "execute_plan env plan_text (s\<lparr>oracle_state := ost\<rparr>) = (r, s1)"
    by (cases "execute_plan env plan_text (s\<lparr>oracle_state := ost\<rparr>)")
  have f: "virtual_tools s1 = virtual_tools s" "success_count s1 = success_count s"
    using execute_plan_frame[OF ex] by simp_all
  show ?thesis
  proof (cases r)
    case (Inl e)
    then show ?thesis using ask miss conv ex ok by (auto simp: ask_system_def)
  next
    case (Inr v)
    then show ?thesis
      using ask miss conv ex f
      by (auto simp: ask_system_def Let_def store_virtual_tool_def)
  qed
qed

lemma cache_hit_frame:
  assumes "virtual_tools s (get_question_signature q) = Some plan_text"
  shows "\<exists>out s'. ask_system env fuel q s = Some (Inr out, s') \<and> virtual_tools s' = virtual_tools s"
proof -
  obtain r s' where ex: "execute_plan env plan_text s = (r, s')"
    by (cases "execute_plan env plan_text s")
  note f = execute_plan_frame[OF ex]
  show ?thesis
    by (cases r) (simp_all add: ask_system_def assms ex f)
qed

lemma ask_system_keeps_entries:
  assumes "ask_system env fuel q s = Some (r, s')" "virtual_tools s k = Some p"
  shows "virtual_tools s' k = Some p"
proof (cases "virtual_tools s (get_question_signature q)")
  case (Some plan_text)
  obtain out s2 where "ask_system env fuel q s = Some (Inr out, s2)" "virtual_tools s2 = virtual_tools s"
    using cache_hit_frame[OF Some] by blast
  then show ?thesis using assms by simp
next
  case None
  then have k: "k \<noteq> get_question_signature q" using assms(2) by auto
  show ?thesis
  proof (cases "conversation_with_planner env fuel q (oracle_state s)")
    case n: None
    then show ?thesis using assms None by (simp add: ask_system_def)
  next
    case (Some a)
    obtain c ost where a: "a = (c, ost)" by (cases a)
    show ?thesis
    proof (cases c)
      case (Inl e)
      then show ?thesis using assms None Some a by (auto simp: ask_system_def)
    next
      case (Inr plan_text)
      obtain r1 s1 where ex: "execute_plan env plan_text (s\<lparr>oracle_state := ost\<rparr>) = (r1, s1)"
        by (cases "execute_plan env plan_text (s\<lparr>oracle_state := ost\<rparr>)")
      have f: "virtual_tools s1 = virtual_tools s"
        using execute_plan_frame[OF ex] by simp
      show ?thesis
        using assms None Some a Inr ex f k
        by (cases r1) (auto simp: ask_system_def Let_def store_virtual_tool_def)
    qed
  qed
qed

lemma ask_all_keeps_entries:
  "ask_all env reqs s = Some s' \<Longrightarrow> virtual_tools s k = Some p \<Longrightarrow> virtual_tools s' k = Some p"
proof (induction reqs arbitrary: s)
  case Nil
  then show ?case by simp
next
  case (Cons fq rest)
  obtain fuel q where fq: "fq = (fuel, q)" by (cases fq)
  from Cons.prems(1) obtain r s1 where a: "ask_system env fuel q s = Some (r, s1)"
    and rest: "ask_all env rest s1 = Some s'"
    unfolding fq by (auto split: option.splits)
  have "virtual_tools s1 k = Some p"
    by (rule ask_system_keeps_entries[OF a Cons.prems(2)])
  then show ?case by (rule Cons.IH[OF rest])
qed

text \<open>A request that fails changes neither dictionary: the counter is never reset.\<close>

lemma ask_system_failure_keeps_dictionaries:
  assumes "ask_system env fuel q s = Some (Inr out, s')" "status out = ''fail''"
  shows "success_count s' = success_count s \<and> virtual_tools s' = virtual_tools s"
proof (cases "virtual_tools s (get_question_signature q)")
  case (Some plan_text)
  obtain r s1 where ex: "execute_plan env plan_text s = (r, s1)"
    by (cases "execute_plan env plan_text s")
  note f = execute_plan_frame[OF ex]
  show ?thesis
    using assms Some ex f by (cases r) (auto simp: ask_system_def)
next
  case None
  show ?thesis
  proof (cases "conversation_with_planner env fuel q (oracle_state s)")
    case n: None
    then show ?thesis using assms None by (simp add: ask_system_def)
  next
    case (Some a)
    obtain c ost where a: "a = (c, ost)" by (cases a)
    show ?thesis
    proof (cases c)
      case (Inl e)
      then show ?thesis using assms None Some a by (auto simp: ask_system_def)
    next
      case (Inr plan_text)
      obtain r1 s1 where ex: "execute_plan env plan_text (s\<lparr>oracle_state := ost\<rparr>) = (r1, s1)"
        by (cases "execute_plan env plan_text (s\<lparr>oracle_state := ost\<rparr>)")
      have f: "virtual_tools s1 = virtual_tools s" "success_count s1 = success_count s"
        using execute_plan_frame[OF ex] by simp_all
      show ?thesis
        using assms None Some a Inr ex f
        by (cases r1) (auto simp: ask_system_def Let_def)
    qed
  qed
qed

text \<open>
  Claim C2, as amended. Take a signature with no cached plan and no success counted
  yet (\<open>success_count.get(sig, 0)\<close> is 0). A fresh request with that signature that
  succeeds creates no entry; a second one that succeeds right after it creates the
  entry, holding the plan text of that second success. And whatever requests follow,
  every entry that exists keeps its plan text.
\<close>

theorem promotion_after_two_successes:
  assumes "get_question_signature q1 = sg" and "get_question_signature q2 = sg"
    and "virtual_tools s sg = None"
    and "success_count s sg = None \<or> success_count s sg = Some 0"
    and "ask_system env fuel1 q1 s = Some (Inr out1, s1)" and "status out1 = ''success''"
    and "ask_system env fuel2 q2 s1 = Some (Inr out2, s2)" and "status out2 = ''success''"
    and "ask_all env later s2 = Some s3"
  shows "via out1 = ''fresh_llm'' \<and> virtual_tools s1 sg = None
       \<and> via out2 = ''fresh_llm'' \<and> virtual_tools s2 sg = Some (plan out2)
       \<and> virtual_tools s3 sg = Some (plan out2)
       \<and> (\<forall>k p. virtual_tools s2 k = Some p \<longrightarrow> virtual_tools s3 k = Some p)"
proof -
  have m1: "virtual_tools s (get_question_signature q1) = None"
    using assms(1,3) by simp
  have c0: "(case success_count s (get_question_signature q1) of None \<Rightarrow> 0 | Some c \<Rightarrow> c) = 0"
    using assms(1,4) by auto
  note a = ask_system_fresh_success[OF m1 assms(5,6)]
  have v1: "via out1 = ''fresh_llm''" using a by simp
  have c1: "success_count s1 sg = Some 1" using a c0 assms(1) by simp
  have t1: "virtual_tools s1 = virtual_tools s" using a c0 by simp
  have m2: "virtual_tools s1 (get_question_signature q2) = None"
    using t1 assms(2,3) by simp
  have c1': "(case success_count s1 (get_question_signature q2) of None \<Rightarrow> 0 | Some c \<Rightarrow> c) = 1"
    using c1 assms(2) by simp
  note b = ask_system_fresh_success[OF m2 assms(7,8)]
  have v2: "via out2 = ''fresh_llm''" using b by simp
  have t2: "virtual_tools s2 sg = Some (plan out2)" using b c1' assms(2) by simp
  have t3: "virtual_tools s3 k = Some p" if "virtual_tools s2 k = Some p" for k p
    by (rule ask_all_keeps_entries[OF assms(9) that])
  show ?thesis using v1 t1 assms(3) v2 t2 t3 by simp
qed

theorem promotion_after_two_successes_witness:
  "virtual_tools world_after_first ''hello'' = None
   \<and> virtual_tools world_after_second ''hello'' = Some plan_example1_spaced
   \<and> virtual_tools world_after_more ''hello'' = Some plan_example1_spaced"
proof -
  let ?out1 = "\<lparr>question = ''hello'', plan = plan_example1, answer = Some 28,
                error = None, status = ''success'', via = ''fresh_llm''\<rparr>"
  let ?out2 = "\<lparr>question = '' HELLO '', plan = plan_example1_spaced, answer = Some 28,
                error = None, status = ''success'', via = ''fresh_llm''\<rparr>"
  have g1: "get_question_signature ''hello'' = ''hello''" by code_simp
  have g2: "get_question_signature '' HELLO '' = ''hello''" by code_simp
  have m: "virtual_tools initial_world ''hello'' = None" by (simp add: initial_world_def)
  have c: "success_count initial_world ''hello'' = None \<or> success_count initial_world ''hello'' = Some 0"
    by (simp add: initial_world_def)
  have "map_option fst (ask_system example_env 1 ''hello'' initial_world) = Some (Inr ?out1)"
    by code_simp
  then have a1: "ask_system example_env 1 ''hello'' initial_world = Some (Inr ?out1, world_after_first)"
    by (cases "ask_system example_env 1 ''hello'' initial_world") (auto simp: world_after_first_def)
  have "map_option fst (ask_system example_env 1 '' HELLO '' world_after_first) = Some (Inr ?out2)"
    by code_simp
  then have a2: "ask_system example_env 1 '' HELLO '' world_after_first = Some (Inr ?out2, world_after_second)"
    by (cases "ask_system example_env 1 '' HELLO '' world_after_first") (auto simp: world_after_second_def)
  have "map_option (\<lambda>w. ()) (ask_all example_env later_requests world_after_second) = Some ()"
    by code_simp
  then have a3: "ask_all example_env later_requests world_after_second = Some world_after_more"
    by (cases "ask_all example_env later_requests world_after_second") (auto simp: world_after_more_def)
  show ?thesis
    using promotion_after_two_successes[OF g1 g2 m c a1 _ a2 _ a3] by simp
qed

text \<open>
  Without the condition on the counter the first part fails. After one success the
  signature \<open>hello\<close> has no entry and the counter 1, and a single further success
  creates the entry.
\<close>

theorem one_more_success_creates_entry:
  "virtual_tools world_after_first ''hello'' = None
   \<and> success_count world_after_first ''hello'' = Some 1
   \<and> get_question_signature '' HELLO '' = ''hello''
   \<and> map_option fst (ask_system example_env 1 '' HELLO '' world_after_first) =
       Some (Inr \<lparr>question = '' HELLO '', plan = plan_example1_spaced, answer = Some 28,
                  error = None, status = ''success'', via = ''fresh_llm''\<rparr>)
   \<and> virtual_tools (snd (the (ask_system example_env 1 '' HELLO '' world_after_first))) ''hello'' =
       Some plan_example1_spaced"
proof (intro conjI)
  show "virtual_tools world_after_first ''hello'' = None" by code_simp
  show "success_count world_after_first ''hello'' = Some 1" by code_simp
  show "get_question_signature '' HELLO '' = ''hello''" by code_simp
  show "map_option fst (ask_system example_env 1 '' HELLO '' world_after_first) =
       Some (Inr \<lparr>question = '' HELLO '', plan = plan_example1_spaced, answer = Some 28,
                  error = None, status = ''success'', via = ''fresh_llm''\<rparr>)"
    by code_simp
  show "virtual_tools (snd (the (ask_system example_env 1 '' HELLO '' world_after_first))) ''hello'' =
       Some plan_example1_spaced"
    by code_simp
qed

end
